theory Spec2Isabelle
  imports Complex_Main
begin

section \<open>Constants (constants.ts)\<close>

definition FILE_SIZE_LIMIT :: nat where
  "FILE_SIZE_LIMIT = 40 * 1024 * 1024"

definition DEFAULT_PAGE_LIMIT :: int where
  "DEFAULT_PAGE_LIMIT = 20"

definition MAX_PAGE_LIMIT :: int where
  "MAX_PAGE_LIMIT = 100"

section \<open>Decimal rendering of numbers inside template strings\<close>

definition digit_char :: "nat \<Rightarrow> char" where
  "digit_char d = ''0123456789'' ! d"

fun string_of_nat :: "nat \<Rightarrow> string" where
  "string_of_nat n =
     (if n < 10 then [digit_char n] else string_of_nat (n div 10) @ [digit_char (n mod 10)])"

declare string_of_nat.simps [simp del]

definition string_of_int :: "int \<Rightarrow> string" where
  "string_of_int i = (if i < 0 then CHR ''-'' # string_of_nat (nat (- i)) else string_of_nat (nat i))"

section \<open>The remote gateway and the client's error classification (iagon-client.ts)\<close>

text \<open>
  What a failed axios call carries, as far as \<open>handleError\<close> inspects it: an HTTP response
  with its status and the optional \<open>message\<close> of its body, an axios error without a response
  (its \<open>code\<close> and its \<open>message\<close>), or any other thrown value (its message). The arrow in
  the message for status 401 is written \<open>->\<close> here.
\<close>

datatype request_error =
    ResponseError nat "string option"
  | NoResponse "string option" string
  | OtherError string

fun handleError :: "request_error \<Rightarrow> string" where
  "handleError (ResponseError status data_message) =
     (if status = 401 then
        ''Authentication failed. Please check your IAGON_ACCESS_TOKEN is valid. Generate a new one at https://app.iagon.com -> Settings.''
      else if status = 403 then ''Permission denied. You don't have access to this resource.''
      else if status = 404 then ''Resource not found. Please check the file/folder ID is correct.''
      else if status = 413 then ''File too large. Iagon has a 40MB limit per file for sharding.''
      else if status = 429 then ''Rate limit exceeded. Please wait before making more requests.''
      else if status = 500 then ''Iagon server error. Please try again later.''
      else (case data_message of
              Some m \<Rightarrow> if m = [] then ''API request failed with status '' @ string_of_nat status else m
            | None \<Rightarrow> ''API request failed with status '' @ string_of_nat status))"
| "handleError (NoResponse code msg) =
     (if code = Some ''ECONNABORTED'' then
        ''Request timed out. The file may be too large or the network is slow.''
      else if code = Some ''ENOTFOUND'' then
        ''Cannot connect to Iagon servers. Please check your internet connection.''
      else ''Unexpected error: '' @ msg)"
| "handleError (OtherError msg) = ''Unexpected error: '' @ msg"

text \<open>Local paths are absolute and normalised: the list of their components.\<close>

type_synonym path = "string list"

record IagonFile =
  f_id :: string
  f_name :: string
  f_size :: nat
  f_mimeType :: "string option"
  f_folderId :: "string option"
  f_createdAt :: string
  f_updatedAt :: string
  f_nodeId :: "string option"

text \<open>
  The JSON body of a list or search response, as far as the client reads it: the items array
  under \<open>files\<close> or under \<open>items\<close>, and \<open>total\<close>; \<open>None\<close> is an absent field.
\<close>

record list_body =
  body_files :: "IagonFile list option"
  body_items :: "IagonFile list option"
  body_total :: "int option"

text \<open>The body of an upload response: its \<open>id\<close> and \<open>fileId\<close> fields.\<close>

record upload_body =
  body_id :: "string option"
  body_fileId :: "string option"

text \<open>The requests the client sends, in the order it sends them.\<close>

datatype request =
    PostUpload path string
  | GetFiles "string option" int int
  | GetSearch string int int

text \<open>
  The remote service is a collaborator: what it answers may depend on the request and on
  everything sent before it, and on nothing else.
\<close>

record gateway =
  post_upload :: "request list \<Rightarrow> path \<Rightarrow> string \<Rightarrow> request_error + upload_body"
  get_files :: "request list \<Rightarrow> string option \<Rightarrow> int \<Rightarrow> int \<Rightarrow> request_error + list_body"
  get_search :: "request list \<Rightarrow> string \<Rightarrow> int \<Rightarrow> int \<Rightarrow> request_error + list_body"

text \<open>
  The observable effects of a run: the requests sent to the gateway and the paths
  \<open>client.uploadFile\<close> was called with.
\<close>

record effects =
  sent :: "request list"
  uploadFile_calls :: "path list"

definition no_effects :: effects where
  "no_effects = \<lparr>sent = [], uploadFile_calls = []\<rparr>"

section \<open>Pagination (IagonClient.listFiles, IagonClient.searchFiles)\<close>

record PaginatedResponse =
  items :: "IagonFile list"
  page_total :: int
  count :: nat
  offset :: int
  hasMore :: bool
  nextOffset :: "int option"

text \<open>
  The numbers of a page are JavaScript numbers, that is IEEE 754 double-precision values;
  \<open>offset\<close> and \<open>total\<close> are integral ones, written as the integers they denote. The program
  adds \<open>offset\<close> and \<open>items.length\<close> in that arithmetic: the exact sum is rounded to the nearest
  number with a significand of 53 bits, a tie going to the even significand.
  \<open>shift m\<close> is the number of low bits the rounding of \<open>m\<close> drops.
\<close>

fun shift :: "nat \<Rightarrow> nat" where
  "shift m = (if m < 2 ^ 53 then 0 else Suc (shift (m div 2)))"

declare shift.simps [simp del]

definition round_double :: "int \<Rightarrow> int" where
  "round_double x =
     (let m = nat \<bar>x\<bar>; e = shift m; q = m div 2 ^ e; r = m mod 2 ^ e;
          up = (2 * r > 2 ^ e \<or> (2 * r = 2 ^ e \<and> odd q))
      in sgn x * int ((if up then q + 1 else q) * 2 ^ e))"

text \<open>
  \<open>offset + items.length\<close> as the program computes it. An array has fewer than \<open>2^32\<close>
  elements; the second branch only keeps the function total on longer lists.
\<close>

definition double_sum :: "int \<Rightarrow> nat \<Rightarrow> int" where
  "double_sum off n = (if n < 2 ^ 32 then round_double (off + int n) else off + int n)"

text \<open>
  The body of both methods after the response has arrived:
  \<^verbatim>\<open>items = data.files || data.items || []\<close> (an array, even an empty one, is truthy) and
  \<^verbatim>\<open>total = data.total || items.length\<close> (an absent total and the number 0 are falsy).
\<close>

definition page_of :: "list_body \<Rightarrow> int \<Rightarrow> PaginatedResponse" where
  "page_of data off =
     (let its = (case body_files data of Some fs \<Rightarrow> fs
                 | None \<Rightarrow> (case body_items data of Some is \<Rightarrow> is | None \<Rightarrow> []));
          tot = (case body_total data of
                   Some t \<Rightarrow> if t = 0 then int (length its) else t
                 | None \<Rightarrow> int (length its))
      in \<lparr>items = its,
          page_total = tot,
          count = length its,
          offset = off,
          hasMore = (tot > double_sum off (length its)),
          nextOffset = (if tot > double_sum off (length its)
                        then Some (double_sum off (length its)) else None)\<rparr>)"

text \<open>
  \<^verbatim>\<open>listFiles(folderId?, limit = 20, offset = 0)\<close>: a failed request is rethrown as an
  \<open>Error\<close> with the classified message (\<open>Inl\<close>).
\<close>

definition listFiles ::
  "gateway \<Rightarrow> string option \<Rightarrow> int option \<Rightarrow> int option \<Rightarrow> effects
     \<Rightarrow> (string + PaginatedResponse) \<times> effects" where
  "listFiles gw folder limit_opt offset_opt st =
     (let lim' = (case limit_opt of None \<Rightarrow> 20 | Some l \<Rightarrow> l);
          off = (case offset_opt of None \<Rightarrow> 0 | Some x \<Rightarrow> x);
          st' = st\<lparr>sent := sent st @ [GetFiles folder lim' off]\<rparr>
      in case get_files gw (sent st) folder lim' off of
           Inl e \<Rightarrow> (Inl (handleError e), st')
         | Inr data \<Rightarrow> (Inr (page_of data off), st'))"

definition searchFiles ::
  "gateway \<Rightarrow> string \<Rightarrow> int option \<Rightarrow> int option \<Rightarrow> effects
     \<Rightarrow> (string + PaginatedResponse) \<times> effects" where
  "searchFiles gw query limit_opt offset_opt st =
     (let lim' = (case limit_opt of None \<Rightarrow> 20 | Some l \<Rightarrow> l);
          off = (case offset_opt of None \<Rightarrow> 0 | Some x \<Rightarrow> x);
          st' = st\<lparr>sent := sent st @ [GetSearch query lim' off]\<rparr>
      in case get_search gw (sent st) query lim' off of
           Inl e \<Rightarrow> (Inl (handleError e), st')
         | Inr data \<Rightarrow> (Inr (page_of data off), st'))"

section \<open>Input validation (input-schemas.ts)\<close>

text \<open>
  A raw tool argument: absent, a finite number (a double, given by its exact value), a
  string, or any other JSON value.
\<close>

datatype json = JUndefined | JNumber rat | JString string | JOther

datatype issue =
    InvalidType string
  | InvalidEnumValue string
  | NotInteger string
  | Message string string

datatype ResponseFormat = MARKDOWN | JSON

text \<open>
  \<^verbatim>\<open>z.number().int().min(1, ...).max(MAX_PAGE_LIMIT, ...).default(DEFAULT_PAGE_LIMIT)\<close>:
  the default replaces an absent value; a number runs through every check, and each
  failed check adds its issue.
\<close>

definition is_integer :: "rat \<Rightarrow> bool" where
  "is_integer r = (of_int \<lfloor>r\<rfloor> = r)"

definition limit_schema :: "json \<Rightarrow> issue list + int" where
  "limit_schema v =
     (case v of
        JUndefined \<Rightarrow> Inr DEFAULT_PAGE_LIMIT
      | JNumber r \<Rightarrow>
          (let issues =
                 (if is_integer r then [] else [NotInteger ''limit''])
               @ (if r < 1 then [Message ''limit'' ''Limit must be at least 1''] else [])
               @ (if r > of_int MAX_PAGE_LIMIT
                  then [Message ''limit'' (''Limit cannot exceed '' @ string_of_int MAX_PAGE_LIMIT)]
                  else [])
           in if issues = [] then Inr \<lfloor>r\<rfloor> else Inl issues)
      | _ \<Rightarrow> Inl [InvalidType ''limit''])"

definition offset_schema :: "json \<Rightarrow> issue list + int" where
  "offset_schema v =
     (case v of
        JUndefined \<Rightarrow> Inr 0
      | JNumber r \<Rightarrow>
          (let issues =
                 (if is_integer r then [] else [NotInteger ''offset''])
               @ (if r < 0 then [Message ''offset'' ''Offset cannot be negative''] else [])
           in if issues = [] then Inr \<lfloor>r\<rfloor> else Inl issues)
      | _ \<Rightarrow> Inl [InvalidType ''offset''])"

definition optional_string :: "string \<Rightarrow> json \<Rightarrow> issue list + string option" where
  "optional_string field v =
     (case v of JUndefined \<Rightarrow> Inr None | JString s \<Rightarrow> Inr (Some s) | _ \<Rightarrow> Inl [InvalidType field])"

definition response_format_schema :: "json \<Rightarrow> issue list + ResponseFormat" where
  "response_format_schema v =
     (case v of
        JUndefined \<Rightarrow> Inr MARKDOWN
      | JString s \<Rightarrow>
          (if s = ''markdown'' then Inr MARKDOWN
           else if s = ''json'' then Inr JSON
           else Inl [InvalidEnumValue ''response_format''])
      | _ \<Rightarrow> Inl [InvalidType ''response_format''])"

definition query_schema :: "json \<Rightarrow> issue list + string" where
  "query_schema v =
     (case v of
        JString s \<Rightarrow>
          (let issues =
                 (if length s < 1 then [Message ''query'' ''Search query is required''] else [])
               @ (if length s > 200 then [Message ''query'' ''Search query too long''] else [])
           in if issues = [] then Inr s else Inl issues)
      | _ \<Rightarrow> Inl [InvalidType ''query''])"

definition issues_of :: "issue list + 'a \<Rightarrow> issue list" where
  "issues_of r = (case r of Inl is \<Rightarrow> is | Inr _ \<Rightarrow> [])"

record ListFilesRaw =
  raw_limit :: json
  raw_offset :: json
  raw_folder_id :: json
  raw_response_format :: json

record ListFilesInput =
  limit :: int
  offset_arg :: int
  folder_id :: "string option"
  response_format :: ResponseFormat

text \<open>
  \<open>ListFilesSchema\<close> is \<open>PaginationSchema\<close> extended with \<open>folder_id\<close> and
  \<open>response_format\<close>: an object is accepted when every field is, and rejected with the
  issues of all its fields otherwise. The raw object has exactly the fields of the schema, so
  the rejection of unknown keys by \<open>strict()\<close> has no counterpart here.
\<close>

definition ListFilesSchema :: "ListFilesRaw \<Rightarrow> issue list + ListFilesInput" where
  "ListFilesSchema raw =
     (case (limit_schema (raw_limit raw), offset_schema (raw_offset raw),
            optional_string ''folder_id'' (raw_folder_id raw),
            response_format_schema (raw_response_format raw)) of
        (Inr l, Inr off, Inr f, Inr fmt) \<Rightarrow>
          Inr \<lparr>limit = l, offset_arg = off, folder_id = f, response_format = fmt\<rparr>
      | (a, b, c, d) \<Rightarrow> Inl (issues_of a @ issues_of b @ issues_of c @ issues_of d))"

record SearchFilesRaw =
  sraw_limit :: json
  sraw_offset :: json
  sraw_query :: json
  sraw_response_format :: json

record SearchFilesInput =
  s_limit :: int
  s_offset :: int
  s_query :: string
  s_response_format :: ResponseFormat

definition SearchFilesSchema :: "SearchFilesRaw \<Rightarrow> issue list + SearchFilesInput" where
  "SearchFilesSchema raw =
     (case (limit_schema (sraw_limit raw), offset_schema (sraw_offset raw),
            query_schema (sraw_query raw),
            response_format_schema (sraw_response_format raw)) of
        (Inr l, Inr off, Inr q, Inr fmt) \<Rightarrow>
          Inr \<lparr>s_limit = l, s_offset = off, s_query = q, s_response_format = fmt\<rparr>
      | (a, b, c, d) \<Rightarrow> Inl (issues_of a @ issues_of b @ issues_of c @ issues_of d))"

section \<open>The list and search tools (file-tools.ts)\<close>

text \<open>
  What a call of a paginated tool comes to: rejected by the input schema, failed with the
  message of the error the handler caught, or the page the handler then renders as text.
\<close>

datatype page_result =
    Rejected "issue list"
  | ToolError string
  | Page PaginatedResponse

text \<open>
  The server parses the arguments with the tool's \<open>inputSchema\<close> and runs the handler only
  on the parsed value; the handler passes \<open>limit\<close> and \<open>offset\<close> to the client and catches
  what it throws.
\<close>

definition iagon_list_files :: "gateway \<Rightarrow> ListFilesRaw \<Rightarrow> effects \<Rightarrow> page_result \<times> effects" where
  "iagon_list_files gw raw st =
     (case ListFilesSchema raw of
        Inl issues \<Rightarrow> (Rejected issues, st)
      | Inr params \<Rightarrow>
          (case listFiles gw (folder_id params) (Some (limit params)) (Some (offset_arg params)) st of
             (Inl msg, st') \<Rightarrow> (ToolError (''Error: '' @ msg), st')
           | (Inr page, st') \<Rightarrow> (Page page, st')))"

definition iagon_search_files :: "gateway \<Rightarrow> SearchFilesRaw \<Rightarrow> effects \<Rightarrow> page_result \<times> effects" where
  "iagon_search_files gw raw st =
     (case SearchFilesSchema raw of
        Inl issues \<Rightarrow> (Rejected issues, st)
      | Inr params \<Rightarrow>
          (case searchFiles gw (s_query params) (Some (s_limit params)) (Some (s_offset params)) st of
             (Inl msg, st') \<Rightarrow> (ToolError (''Error: '' @ msg), st')
           | (Inr page, st') \<Rightarrow> (Page page, st')))"

section \<open>The local file system\<close>

text \<open>
  A state of the local file system is a tree. A function reads one state throughout; the
  directory upload, which reads the file system twice, takes two. Every node has the byte
  size that \<open>stat\<close> reports; a directory lists its entries in the order \<open>readdirSync\<close>
  returns them; \<open>Special\<close> stands for anything that is neither a regular file nor a
  directory.
\<close>

datatype node =
    File nat
  | Dir nat "(string \<times> node) list"
  | Special nat

fun stat_size :: "node \<Rightarrow> nat" where
  "stat_size (File n) = n"
| "stat_size (Dir n es) = n"
| "stat_size (Special n) = n"

fun isDirectory :: "node \<Rightarrow> bool" where
  "isDirectory (Dir n es) = True"
| "isDirectory nd = False"

fun isFile :: "node \<Rightarrow> bool" where
  "isFile (File n) = True"
| "isFile nd = False"

text \<open>\<open>statSync\<close>: the node a path resolves to, \<open>None\<close> where \<open>statSync\<close> throws ENOENT.\<close>

fun statSync :: "node \<Rightarrow> path \<Rightarrow> node option" where
  "statSync nd [] = Some nd"
| "statSync (Dir n es) (c # cs) =
     (case map_of es c of None \<Rightarrow> None | Some nd \<Rightarrow> statSync nd cs)"
| "statSync nd (c # cs) = None"

definition existsSync :: "node \<Rightarrow> path \<Rightarrow> bool" where
  "existsSync fs p = (statSync fs p \<noteq> None)"

text \<open>The names in a directory are distinct, at every level.\<close>

fun wf_node :: "node \<Rightarrow> bool" where
  "wf_node (Dir n es) = (distinct (map fst es) \<and> list_all (\<lambda>e. wf_node (snd e)) es)"
| "wf_node nd = True"

text \<open>\<open>path.basename\<close> and the text of a path inside a message.\<close>

definition basename :: "path \<Rightarrow> string" where
  "basename p = (if p = [] then [] else last p)"

definition path_string :: "path \<Rightarrow> string" where
  "path_string p = (if p = [] then ''/'' else concat (map (\<lambda>c. CHR ''/'' # c) p))"

text \<open>What the handlers can catch: a failed \<open>stat\<close> or \<open>readdir\<close>, or the \<open>SyntaxError\<close> of
  \<open>new RegExp\<close> with its message.\<close>

datatype fs_error =
    ENOENT path
  | ENOTDIR path
  | SyntaxError string

section \<open>The name filter of the directory scan (file-tools.ts, getFilesFromDirectory)\<close>

text \<open>
  \<^verbatim>\<open>pattern.replace(/\*/g, ".*").replace(/\?/g, ".")\<close>: every occurrence of the character
  is replaced.
\<close>

definition replace_all :: "char \<Rightarrow> string \<Rightarrow> string \<Rightarrow> string" where
  "replace_all c rep s = concat (map (\<lambda>x. if x = c then rep else [x]) s)"

definition regex_source :: "string \<Rightarrow> string" where
  "regex_source pattern = replace_all (CHR ''?'') ''.'' (replace_all (CHR ''*'') ''.*'' pattern)"

text \<open>
  The regular-expression engine is the language's, not the program's: \<open>rx src\<close> stands for
  \<^verbatim>\<open>new RegExp(src, "i")\<close>, either the message of the \<open>SyntaxError\<close> it throws (\<open>Inl\<close>) or the
  predicate \<^verbatim>\<open>name => regex.test(name)\<close> of the expression it builds (\<open>Inr\<close>). The functions of
  the scan take it as a parameter, so that every source is covered, whatever it contains.
\<close>

type_synonym regexp_engine = "string \<Rightarrow> string + (string \<Rightarrow> bool)"

text \<open>
  What the language fixes for the simplest sources is written out, for the evaluation of
  concrete patterns. \<open>parse_regex\<close> reads a source that holds only \<open>.\<close>, \<open>.*\<close> and ASCII
  characters that are no syntax character of a regular expression, as a sequence of literal
  characters, \<open>.\<close> and \<open>.*\<close>. It is \<open>None\<close> on every other source: that says nothing about such
  a source, which the engine may well accept.
\<close>

datatype atom = Lit char | AnyChar | AnyStar

definition syntax_character :: "char \<Rightarrow> bool" where
  "syntax_character c = (c \<in> set ''^$.*+?()[]{}|'' \<or> c = CHR 0x5C)"

fun parse_regex :: "string \<Rightarrow> atom list option" where
  "parse_regex [] = Some []"
| "parse_regex (c # cs) =
     (if c = CHR ''.'' then
        (case cs of
           d # ds \<Rightarrow>
             if d = CHR ''*'' then map_option ((#) AnyStar) (parse_regex ds)
             else map_option ((#) AnyChar) (parse_regex cs)
         | [] \<Rightarrow> Some [AnyChar])
      else if syntax_character c \<or> 128 \<le> (of_char c :: nat) then None
      else map_option ((#) (Lit c)) (parse_regex cs))"

text \<open>
  Matching under the flag \<open>i\<close>: characters are compared after \<open>Canonicalize\<close>, which maps an
  ASCII lower-case letter to its upper-case letter and never maps a character outside
  ASCII to one inside; \<open>.\<close> matches any character but a line terminator.
\<close>

definition canonicalize :: "char \<Rightarrow> char" where
  "canonicalize c =
     (case map_of (zip ''abcdefghijklmnopqrstuvwxyz'' ''ABCDEFGHIJKLMNOPQRSTUVWXYZ'') c of
        Some u \<Rightarrow> u
      | None \<Rightarrow> c)"

definition line_terminator :: "char \<Rightarrow> bool" where
  "line_terminator c = ((of_char c :: nat) = 10 \<or> (of_char c :: nat) = 13)"

fun match_here :: "atom list \<Rightarrow> string \<Rightarrow> bool" where
  "match_here [] s = True"
| "match_here (Lit c # r) [] = False"
| "match_here (Lit c # r) (x # xs) = (canonicalize x = canonicalize c \<and> match_here r xs)"
| "match_here (AnyChar # r) [] = False"
| "match_here (AnyChar # r) (x # xs) = (\<not> line_terminator x \<and> match_here r xs)"
| "match_here (AnyStar # r) [] = match_here r []"
| "match_here (AnyStar # r) (x # xs) =
     (match_here r (x # xs) \<or> (\<not> line_terminator x \<and> match_here (AnyStar # r) xs))"

text \<open>\<open>regex.test(name)\<close>: the expression is not anchored, so a match may start anywhere.\<close>

fun regex_test :: "atom list \<Rightarrow> string \<Rightarrow> bool" where
  "regex_test r [] = match_here r []"
| "regex_test r (x # xs) = (match_here r (x # xs) \<or> regex_test r xs)"

definition pattern_test :: "string \<Rightarrow> string \<Rightarrow> bool option" where
  "pattern_test pattern nm = map_option (\<lambda>r. regex_test r nm) (parse_regex (regex_source pattern))"

text \<open>An engine that does on the sources read by \<open>parse_regex\<close> what the language says.\<close>

definition implements_fragment :: "regexp_engine \<Rightarrow> bool" where
  "implements_fragment rx =
     (\<forall>src r. parse_regex src = Some r \<longrightarrow> rx src = Inr (regex_test r))"

text \<open>
  The filter on a file's base name: \<^verbatim>\<open>if (pattern) { ... }\<close> skips the test for an absent
  and for an empty pattern.
\<close>

definition name_filter :: "regexp_engine \<Rightarrow> string option \<Rightarrow> string \<Rightarrow> string + bool" where
  "name_filter rx pattern nm =
     (case pattern of
        None \<Rightarrow> Inr True
      | Some pat \<Rightarrow>
          if pat = [] then Inr True
          else (case rx (regex_source pat) of Inl msg \<Rightarrow> Inl msg | Inr test \<Rightarrow> Inr (test nm)))"

section \<open>Directory enumeration (file-tools.ts, getFilesFromDirectory)\<close>

text \<open>
  \<open>scan_entries dirPath entries\<close> is the loop over the entries of \<open>dirPath\<close>. The recursive
  call on a subdirectory reads that subdirectory's own entries. An absent or empty pattern
  filters nothing; the expression is built only when a regular file is met.
\<close>

fun scan_entries ::
  "regexp_engine \<Rightarrow> path \<Rightarrow> (string \<times> node) list \<Rightarrow> bool \<Rightarrow> string option
     \<Rightarrow> fs_error + path list" where
  "scan_entries rx dirPath [] recursive pattern = Inr []"
| "scan_entries rx dirPath ((nm, Dir n sub) # rest) recursive pattern =
     (if recursive then
        (case scan_entries rx (dirPath @ [nm]) sub recursive pattern of
           Inl e \<Rightarrow> Inl e
         | Inr nested \<Rightarrow>
             (case scan_entries rx dirPath rest recursive pattern of
                Inl e \<Rightarrow> Inl e
              | Inr files \<Rightarrow> Inr (nested @ files)))
      else scan_entries rx dirPath rest recursive pattern)"
| "scan_entries rx dirPath ((nm, File n) # rest) recursive pattern =
     (case name_filter rx pattern nm of
        Inl msg \<Rightarrow> Inl (SyntaxError msg)
      | Inr False \<Rightarrow> scan_entries rx dirPath rest recursive pattern
      | Inr True \<Rightarrow>
          (case scan_entries rx dirPath rest recursive pattern of
             Inl e \<Rightarrow> Inl e
           | Inr files \<Rightarrow> Inr ((dirPath @ [nm]) # files)))"
| "scan_entries rx dirPath ((nm, Special n) # rest) recursive pattern =
     scan_entries rx dirPath rest recursive pattern"

text \<open>
  A path that does not exist gives the empty list; \<open>readdirSync\<close> on a path that is not a
  directory throws.
\<close>

definition getFilesFromDirectory ::
  "regexp_engine \<Rightarrow> node \<Rightarrow> path \<Rightarrow> bool \<Rightarrow> string option \<Rightarrow> fs_error + path list" where
  "getFilesFromDirectory rx fs dirPath recursive pattern =
     (case statSync fs dirPath of
        None \<Rightarrow> Inr []
      | Some (Dir n es) \<Rightarrow> scan_entries rx dirPath es recursive pattern
      | Some nd \<Rightarrow> Inl (ENOTDIR dirPath))"

section \<open>Single-file upload (iagon-client.ts, IagonClient.uploadFile)\<close>

record UploadResult =
  success :: bool
  fileId :: "string option"
  fileName :: string
  fileSize :: nat
  message :: string

text \<open>
  \<open>formatBytes\<close> computes with floating-point logarithms and \<open>toFixed\<close>; the functions
  that call it take it as the parameter \<open>fmt\<close>, and the claims depend only on where its result
  is placed. The call is recorded on entry. \<^verbatim>\<open>remotePath || path.basename(localPath)\<close>
  falls back to the base name when the remote name is absent or empty,
  \<^verbatim>\<open>response.data.id || response.data.fileId\<close> to \<open>fileId\<close> when \<open>id\<close> is absent or empty.
  Every failure of the request, and every error raised while the answer is read, is an
  \<open>Inl\<close> of the gateway and ends in \<open>handleError\<close>.
\<close>

definition uploadFile ::
  "(nat \<Rightarrow> string) \<Rightarrow> node \<Rightarrow> gateway \<Rightarrow> path \<Rightarrow> string option \<Rightarrow> effects
     \<Rightarrow> UploadResult \<times> effects" where
  "uploadFile fmt fs gw localPath remotePath st =
     (let st1 = st\<lparr>uploadFile_calls := uploadFile_calls st @ [localPath]\<rparr>
      in case statSync fs localPath of
           None \<Rightarrow>
             (\<lparr>success = False, fileId = None, fileName = basename localPath, fileSize = 0,
               message = ''File not found: '' @ path_string localPath\<rparr>, st1)
         | Some stats \<Rightarrow>
             (let nm = (case remotePath of
                          Some r \<Rightarrow> if r = [] then basename localPath else r
                        | None \<Rightarrow> basename localPath)
              in if stat_size stats > FILE_SIZE_LIMIT then
                   (\<lparr>success = False, fileId = None, fileName = nm, fileSize = stat_size stats,
                     message = ''File '' @ nm @ '' ('' @ fmt (stat_size stats)
                       @ '') exceeds Iagon's 40MB limit. Consider compressing the video or splitting it into smaller segments.''\<rparr>,
                    st1)
                 else
                   (let st2 = st1\<lparr>sent := sent st1 @ [PostUpload localPath nm]\<rparr>
                    in case post_upload gw (sent st1) localPath nm of
                         Inr body \<Rightarrow>
                           (\<lparr>success = True,
                             fileId = (case body_id body of
                                         Some i \<Rightarrow> if i = [] then body_fileId body else Some i
                                       | None \<Rightarrow> body_fileId body),
                             fileName = nm, fileSize = stat_size stats,
                             message = ''Successfully uploaded '' @ nm @ '' ('' @ fmt (stat_size stats) @ '')''\<rparr>,
                            st2)
                       | Inl e \<Rightarrow>
                           (\<lparr>success = False, fileId = None, fileName = nm, fileSize = stat_size stats,
                             message = handleError e\<rparr>,
                            st2))))"

section \<open>Batch uploads (file-tools.ts, registerBatchTools)\<close>

datatype status = Success | Failed | Skipped

text \<open>One element of \<open>BulkOperationResult.results\<close>.\<close>

record outcome =
  o_path :: path
  o_status :: status
  o_message :: string
  o_fileId :: "string option"

record BulkOperationResult =
  total :: nat
  successful :: nat
  failed :: nat
  skipped :: nat
  results :: "outcome list"

text \<open>What a tool hands back: the error flag and the text of its single content item.\<close>

record response =
  isError :: bool
  text_of :: string

definition join_lines :: "string list \<Rightarrow> string" where
  "join_lines ls = (case ls of [] \<Rightarrow> [] | l # r \<Rightarrow> l @ concat (map (\<lambda>x. CHR 0x0A # x) r))"

definition outcome_lines :: "outcome \<Rightarrow> string list" where
  "outcome_lines r =
     (''['' @ (if o_status r = Success then ''+'' else if o_status r = Failed then ''X'' else ''-'')
        @ ''] **'' @ basename (o_path r) @ ''**: '' @ o_message r)
     # (case o_fileId r of
          Some i \<Rightarrow> if i = [] then [] else [''    ID: `'' @ i @ ''`'']
        | None \<Rightarrow> [])"

definition formatBulkResultAsMarkdown :: "BulkOperationResult \<Rightarrow> string" where
  "formatBulkResultAsMarkdown result =
     join_lines
       ([''# Bulk Upload Results'', [], ''## Summary'',
         ''- **Total**: '' @ string_of_nat (total result),
         ''- **Successful**: '' @ string_of_nat (successful result),
         ''- **Failed**: '' @ string_of_nat (failed result),
         ''- **Skipped**: '' @ string_of_nat (skipped result),
         []]
        @ (if results result \<noteq> [] then [''## Details'', []] @ concat (map outcome_lines (results result))
           else []))"

text \<open>
  The part of both loop bodies after the existence check: the size test on the \<open>stat\<close> of
  the file, then the upload through the client.
\<close>

definition check_and_upload ::
  "(nat \<Rightarrow> string) \<Rightarrow> node \<Rightarrow> gateway \<Rightarrow> path \<Rightarrow> node \<Rightarrow> BulkOperationResult \<times> effects
     \<Rightarrow> BulkOperationResult \<times> effects" where
  "check_and_upload fmt fs gw filePath stats acc =
     (case acc of (result, st) \<Rightarrow>
        if stat_size stats > FILE_SIZE_LIMIT then
          (result\<lparr>skipped := skipped result + 1,
                  results := results result @
                    [\<lparr>o_path = filePath, o_status = Skipped,
                      o_message = ''Exceeds 40MB limit ('' @ fmt (stat_size stats) @ '')'',
                      o_fileId = None\<rparr>]\<rparr>,
           st)
        else
          (case uploadFile fmt fs gw filePath None st of (uploadResult, st') \<Rightarrow>
             if success uploadResult then
               (result\<lparr>successful := successful result + 1,
                       results := results result @
                         [\<lparr>o_path = filePath, o_status = Success,
                           o_message = ''Uploaded ('' @ fmt (stat_size stats) @ '')'',
                           o_fileId = fileId uploadResult\<rparr>]\<rparr>,
                st')
             else
               (result\<lparr>failed := failed result + 1,
                       results := results result @
                         [\<lparr>o_path = filePath, o_status = Failed,
                           o_message = message uploadResult, o_fileId = None\<rparr>]\<rparr>,
                st')))"

text \<open>The body of the loop of \<open>iagon_bulk_upload\<close>.\<close>

definition bulk_upload_item ::
  "(nat \<Rightarrow> string) \<Rightarrow> node \<Rightarrow> gateway \<Rightarrow> path \<Rightarrow> BulkOperationResult \<times> effects
     \<Rightarrow> BulkOperationResult \<times> effects" where
  "bulk_upload_item fmt fs gw filePath acc =
     (case statSync fs filePath of
        None \<Rightarrow>
          (case acc of (result, st) \<Rightarrow>
             (result\<lparr>failed := failed result + 1,
                     results := results result @
                       [\<lparr>o_path = filePath, o_status = Failed, o_message = ''File not found'',
                         o_fileId = None\<rparr>]\<rparr>,
              st))
      | Some stats \<Rightarrow> check_and_upload fmt fs gw filePath stats acc)"

fun bulk_upload_loop ::
  "(nat \<Rightarrow> string) \<Rightarrow> node \<Rightarrow> gateway \<Rightarrow> path list \<Rightarrow> BulkOperationResult \<times> effects
     \<Rightarrow> BulkOperationResult \<times> effects" where
  "bulk_upload_loop fmt fs gw [] acc = acc"
| "bulk_upload_loop fmt fs gw (filePath # rest) acc =
     bulk_upload_loop fmt fs gw rest (bulk_upload_item fmt fs gw filePath acc)"

definition empty_result :: "nat \<Rightarrow> BulkOperationResult" where
  "empty_result n = \<lparr>total = n, successful = 0, failed = 0, skipped = 0, results = []\<rparr>"

text \<open>
  The handler of \<open>iagon_bulk_upload\<close> up to the rendering: the summary it has built. The
  handlers run on parsed arguments (for this tool a list of 1 to 100 paths) and with the
  client at hand: the server does not start without its access token.
\<close>

definition bulk_upload_result ::
  "(nat \<Rightarrow> string) \<Rightarrow> node \<Rightarrow> gateway \<Rightarrow> path list \<Rightarrow> effects \<Rightarrow> BulkOperationResult \<times> effects" where
  "bulk_upload_result fmt fs gw file_paths st =
     bulk_upload_loop fmt fs gw file_paths (empty_result (length file_paths), st)"

definition iagon_bulk_upload ::
  "(nat \<Rightarrow> string) \<Rightarrow> node \<Rightarrow> gateway \<Rightarrow> path list \<Rightarrow> effects \<Rightarrow> response \<times> effects" where
  "iagon_bulk_upload fmt fs gw file_paths st =
     (case bulk_upload_result fmt fs gw file_paths st of (result, st') \<Rightarrow>
        (\<lparr>isError = False, text_of = formatBulkResultAsMarkdown result\<rparr>, st'))"

text \<open>
  The loop of \<open>iagon_upload_directory\<close>: it calls \<open>statSync\<close> without an existence check, so
  a path that does not resolve throws out of the loop and the summary is lost.
\<close>

fun upload_directory_loop ::
  "(nat \<Rightarrow> string) \<Rightarrow> node \<Rightarrow> gateway \<Rightarrow> path list \<Rightarrow> BulkOperationResult \<times> effects
     \<Rightarrow> (fs_error + BulkOperationResult) \<times> effects" where
  "upload_directory_loop fmt fs gw [] acc = (Inr (fst acc), snd acc)"
| "upload_directory_loop fmt fs gw (filePath # rest) acc =
     (case statSync fs filePath of
        None \<Rightarrow> (Inl (ENOENT filePath), snd acc)
      | Some stats \<Rightarrow>
          upload_directory_loop fmt fs gw rest (check_and_upload fmt fs gw filePath stats acc))"

text \<open>The text of a caught error.\<close>

fun error_message :: "fs_error \<Rightarrow> string" where
  "error_message (ENOENT p) =
     ''ENOENT: no such file or directory, stat '' @ [CHR 0x27] @ path_string p @ [CHR 0x27]"
| "error_message (ENOTDIR p) =
     ''ENOTDIR: not a directory, scandir '' @ [CHR 0x27] @ path_string p @ [CHR 0x27]"
| "error_message (SyntaxError msg) = msg"

record UploadDirectoryInput =
  local_directory :: path
  include_pattern :: "string option"
  recursive_flag :: bool

text \<open>The note of the empty enumeration.\<close>

definition no_files_note :: "UploadDirectoryInput \<Rightarrow> string" where
  "no_files_note params =
     ''No files found in '' @ path_string (local_directory params)
       @ (case include_pattern params of
            Some pat \<Rightarrow>
              if pat = [] then [] else '' matching pattern '' @ [CHR 0x22] @ pat @ [CHR 0x22]
          | None \<Rightarrow> [])"

text \<open>
  The handler of \<open>iagon_upload_directory\<close>. \<open>fs\<close> is the file system while the directory is
  checked and enumerated, \<open>fs_loop\<close> the file system while the loop runs: the same tree unless
  something else has changed it in between.
\<close>

definition iagon_upload_directory ::
  "(nat \<Rightarrow> string) \<Rightarrow> regexp_engine \<Rightarrow> node \<Rightarrow> node \<Rightarrow> gateway \<Rightarrow> UploadDirectoryInput \<Rightarrow> effects
     \<Rightarrow> response \<times> effects" where
  "iagon_upload_directory fmt rx fs fs_loop gw params st =
     (case statSync fs (local_directory params) of
        None \<Rightarrow>
          (\<lparr>isError = True, text_of = ''Directory not found: '' @ path_string (local_directory params)\<rparr>, st)
      | Some stats \<Rightarrow>
          if \<not> isDirectory stats then
            (\<lparr>isError = True,
              text_of = ''Path is not a directory: '' @ path_string (local_directory params)\<rparr>, st)
          else
            (case getFilesFromDirectory rx fs (local_directory params) (recursive_flag params)
                    (include_pattern params) of
               Inl e \<Rightarrow> (\<lparr>isError = True, text_of = ''Error: '' @ error_message e\<rparr>, st)
             | Inr files \<Rightarrow>
                 if files = [] then (\<lparr>isError = False, text_of = no_files_note params\<rparr>, st)
                 else
                   (case upload_directory_loop fmt fs_loop gw files (empty_result (length files), st) of
                      (Inl e, st') \<Rightarrow> (\<lparr>isError = True, text_of = ''Error: '' @ error_message e\<rparr>, st')
                    | (Inr result, st') \<Rightarrow>
                        (\<lparr>isError = False, text_of = formatBulkResultAsMarkdown result\<rparr>, st'))))"

section \<open>Auxiliary notions for the proofs\<close>

definition uploadable :: "node \<Rightarrow> path \<Rightarrow> bool" where
  "uploadable fs p = (case statSync fs p of None \<Rightarrow> False | Some nd \<Rightarrow> stat_size nd \<le> FILE_SIZE_LIMIT)"

definition expected_entry :: "(nat \<Rightarrow> string) \<Rightarrow> node \<Rightarrow> path \<Rightarrow> outcome \<Rightarrow> bool" where
  "expected_entry fmt fs p e =
     (o_path e = p \<and>
      (case statSync fs p of
         None \<Rightarrow> e = \<lparr>o_path = p, o_status = Failed, o_message = ''File not found'', o_fileId = None\<rparr>
       | Some nd \<Rightarrow>
           if stat_size nd > FILE_SIZE_LIMIT
           then e = \<lparr>o_path = p, o_status = Skipped,
                     o_message = ''Exceeds 40MB limit ('' @ fmt (stat_size nd) @ '')'', o_fileId = None\<rparr>
           else o_status e \<noteq> Skipped))"

definition count_status :: "status \<Rightarrow> outcome list \<Rightarrow> nat" where
  "count_status s es = length (filter (\<lambda>e. o_status e = s) es)"

text \<open>The paths a scan returns, relative to the directory scanned.\<close>

definition below :: "regexp_engine \<Rightarrow> path \<Rightarrow> node \<Rightarrow> bool \<Rightarrow> string option \<Rightarrow> path set" where
  "below rx dir nd r pat =
     {dir @ q | q. q \<noteq> [] \<and> (r \<or> length q = 1)
        \<and> (\<exists>m. statSync nd q = Some (File m)) \<and> name_filter rx pat (last q) = Inr True}"

definition below_head ::
  "regexp_engine \<Rightarrow> path \<Rightarrow> string \<Rightarrow> node \<Rightarrow> bool \<Rightarrow> string option \<Rightarrow> path set" where
  "below_head rx dir nm nd r pat =
     {dir @ (nm # cs) | cs. (r \<or> cs = []) \<and> (\<exists>m. statSync nd cs = Some (File m))
        \<and> name_filter rx pat (last (nm # cs)) = Inr True}"

section \<open>Example data\<close>

definition demo_file :: IagonFile where
  "demo_file = \<lparr>f_id = ''f1'', f_name = ''a.txt'', f_size = 3, f_mimeType = None, f_folderId = None,
     f_createdAt = ''2024-01-01'', f_updatedAt = ''2024-01-01'', f_nodeId = None\<rparr>"

definition demo_gateway :: "int option \<Rightarrow> gateway" where
  "demo_gateway tot = \<lparr>post_upload = (\<lambda>h p n. Inr \<lparr>body_id = Some ''id1'', body_fileId = None\<rparr>),
     get_files = (\<lambda>h f l off. Inr \<lparr>body_files = Some [demo_file, demo_file], body_items = None, body_total = tot\<rparr>),
     get_search = (\<lambda>h q l off. Inr \<lparr>body_files = None, body_items = Some [demo_file], body_total = tot\<rparr>)\<rparr>"

definition demo_list_raw :: "json \<Rightarrow> json \<Rightarrow> ListFilesRaw" where
  "demo_list_raw l off = \<lparr>raw_limit = l, raw_offset = off, raw_folder_id = JUndefined, raw_response_format = JUndefined\<rparr>"

definition demo_search_raw :: "json \<Rightarrow> json \<Rightarrow> SearchFilesRaw" where
  "demo_search_raw l off = \<lparr>sraw_limit = l, sraw_offset = off, sraw_query = JString ''clip'', sraw_response_format = JString ''json''\<rparr>"

definition demo_list_params :: "int \<Rightarrow> int \<Rightarrow> ListFilesInput" where
  "demo_list_params l off = \<lparr>limit = l, offset_arg = off, folder_id = None, response_format = MARKDOWN\<rparr>"

definition demo_search_params :: "int \<Rightarrow> int \<Rightarrow> SearchFilesInput" where
  "demo_search_params l off = \<lparr>s_limit = l, s_offset = off, s_query = ''clip'', s_response_format = JSON\<rparr>"

definition demo_fmt :: "nat \<Rightarrow> string" where
  "demo_fmt n = string_of_nat n @ '' Bytes''"

definition demo_videos :: "(string \<times> node) list" where
  "demo_videos =
     [(''clip.MP4'', File 41943040), (''clip.mp4x'', File 10), (''big.mp4'', File 41943041),
      (''notes.txt'', File 5), (''old'', Dir 4096 [(''b.mp4'', File 7)])]"

definition demo_fs :: node where
  "demo_fs = Dir 4096 [(''videos'', Dir 4096 demo_videos), (''empty'', Dir 4096 [])]"

text \<open>
  An engine for the examples: what the language says on the sources read by \<open>parse_regex\<close>;
  on any other source it throws, and no result depends on that.
\<close>

definition sample_engine :: regexp_engine where
  "sample_engine src =
     (case parse_regex src of Some r \<Rightarrow> Inr (regex_test r) | None \<Rightarrow> Inl ''not evaluated'')"

text \<open>The tree \<open>demo_fs\<close> after \<open>/videos/clip.mp4x\<close> has been removed.\<close>

definition demo_videos_later :: "(string \<times> node) list" where
  "demo_videos_later =
     [(''clip.MP4'', File 41943040), (''big.mp4'', File 41943041),
      (''notes.txt'', File 5), (''old'', Dir 4096 [(''b.mp4'', File 7)])]"

definition demo_fs_later :: node where
  "demo_fs_later = Dir 4096 [(''videos'', Dir 4096 demo_videos_later), (''empty'', Dir 4096 [])]"

definition demo_batch :: "path list" where
  "demo_batch = [[''missing.mp4''], [''videos'', ''big.mp4''], [''videos'', ''clip.MP4'']]"

definition demo_listing :: "path list" where
  "demo_listing =
     [[''videos'', ''clip.MP4''], [''videos'', ''clip.mp4x''], [''videos'', ''big.mp4''],
      [''videos'', ''notes.txt'']]"

section \<open>Pagination: results\<close>

lemma shift_small: "m < 2 ^ 53 \<Longrightarrow> shift m = 0"
  by (simp add: shift.simps)

lemma shift_lower: "2 ^ 53 \<le> m \<Longrightarrow> 2 ^ 52 \<le> m div 2 ^ shift m"
proof (induction m rule: shift.induct)
  case (1 m)
  show ?case
  proof (cases "m div 2 < 2 ^ 53")
    case True
    then have "shift m = Suc 0" using "1.prems" by (simp add: shift.simps [of m] shift_small)
    moreover have "2 ^ 52 \<le> m div 2" using "1.prems" by simp
    ultimately show ?thesis by simp
  next
    case False
    then have "2 ^ 52 \<le> (m div 2) div 2 ^ shift (m div 2)"
      using "1.IH" "1.prems" by simp
    moreover have "shift m = Suc (shift (m div 2))" using "1.prems" by (simp add: shift.simps [of m])
    ultimately show ?thesis by (simp add: div_mult2_eq)
  qed
qed

lemma round_double_exact: "\<bar>x\<bar> \<le> 2 ^ 53 \<Longrightarrow> round_double x = x"
proof (cases "\<bar>x\<bar> < 2 ^ 53")
  case True
  then have "shift (nat \<bar>x\<bar>) = 0" by (intro shift_small) (simp add: nat_less_iff)
  then show ?thesis by (simp add: round_double_def Let_def mult_sgn_abs)
next
  case False
  assume "\<bar>x\<bar> \<le> 2 ^ 53"
  with False have a: "\<bar>x\<bar> = 2 ^ 53" by simp
  then have m: "nat \<bar>x\<bar> = 2 ^ 53" by simp
  have "shift (2 ^ 53) = Suc 0" by (simp add: shift.simps)
  then show ?thesis
    using a by (simp add: round_double_def Let_def m) (metis a mult_sgn_abs)
qed

lemma round_double_lower: "2 ^ 53 \<le> x \<Longrightarrow> 2 ^ 52 \<le> round_double x"
proof -
  assume x: "2 ^ 53 \<le> x"
  let ?m = "nat \<bar>x\<bar>"
  have m: "2 ^ 53 \<le> ?m" using x by (simp add: le_nat_iff)
  have q: "2 ^ 52 \<le> ?m div 2 ^ shift ?m" using shift_lower [OF m] .
  have e: "(1::nat) \<le> 2 ^ shift ?m" by simp
  have "(2::nat) ^ 52 \<le> (?m div 2 ^ shift ?m) * 2 ^ shift ?m"
    using q e by (metis mult.right_neutral mult_le_mono)
  moreover have "(?m div 2 ^ shift ?m) * 2 ^ shift ?m \<le> (?m div 2 ^ shift ?m + 1) * 2 ^ shift ?m"
    by simp
  moreover have "sgn x = 1" using x by simp
  ultimately show ?thesis
    unfolding round_double_def Let_def
    by (auto simp del: of_nat_mult of_nat_power simp add: \<open>sgn x = 1\<close> intro!: order_trans [of "2 ^ 52" "int (2 ^ 52)"])
qed

lemma double_sum_lower: "0 \<le> off \<Longrightarrow> int n \<le> double_sum off n"
proof (cases "n < 2 ^ 32")
  case False
  assume "0 \<le> off"
  with False show ?thesis by (simp add: double_sum_def)
next
  case True
  assume off: "0 \<le> off"
  have n: "int n < 2 ^ 32" using True by (metis of_nat_less_iff of_nat_numeral of_nat_power)
  show ?thesis
  proof (cases "off + int n < 2 ^ 53")
    case s: True
    then have "round_double (off + int n) = off + int n"
      using off by (intro round_double_exact) simp
    with off True show ?thesis by (simp add: double_sum_def)
  next
    case False
    then have "2 ^ 52 \<le> round_double (off + int n)"
      by (intro round_double_lower) simp
    with n True show ?thesis by (simp add: double_sum_def)
  qed
qed

lemma double_sum_exact: "\<bar>off + int n\<bar> \<le> 2 ^ 53 \<Longrightarrow> double_sum off n = off + int n"
  by (simp add: double_sum_def round_double_exact)

lemma shift_one: "2 ^ 53 \<le> m \<Longrightarrow> m div 2 < 2 ^ 53 \<Longrightarrow> shift m = Suc 0"
  by (subst shift.simps) (simp add: shift_small)

lemma page_of_fields:
  "count (page_of d off) = length (items (page_of d off))"
  "offset (page_of d off) = off"
  "hasMore (page_of d off) \<longleftrightarrow> page_total (page_of d off) > double_sum off (count (page_of d off))"
  "nextOffset (page_of d off)
     = (if hasMore (page_of d off) then Some (double_sum off (count (page_of d off))) else None)"
  by (simp_all add: page_of_def Let_def)

lemma listFiles_Inr:
  "listFiles gw folder lo oo st = (Inr p, st') \<Longrightarrow>
   \<exists>d. get_files gw (sent st) folder (case lo of None \<Rightarrow> 20 | Some l \<Rightarrow> l) (case oo of None \<Rightarrow> 0 | Some x \<Rightarrow> x) = Inr d
     \<and> p = page_of d (case oo of None \<Rightarrow> 0 | Some x \<Rightarrow> x)"
  by (auto simp: listFiles_def Let_def split: sum.splits)

lemma searchFiles_Inr:
  "searchFiles gw q lo oo st = (Inr p, st') \<Longrightarrow>
   \<exists>d. get_search gw (sent st) q (case lo of None \<Rightarrow> 20 | Some l \<Rightarrow> l) (case oo of None \<Rightarrow> 0 | Some x \<Rightarrow> x) = Inr d
     \<and> p = page_of d (case oo of None \<Rightarrow> 0 | Some x \<Rightarrow> x)"
  by (auto simp: searchFiles_def Let_def split: sum.splits)

text \<open>
  Claim C5, amended. Every page that \<open>listFiles\<close> or \<open>searchFiles\<close> returns has \<open>count\<close> equal
  to the number of its items and echoes the requested offset. With \<open>s\<close> the sum
  \<open>offset + count\<close> as the program computes it in double precision, \<open>hasMore\<close> is true exactly
  when \<open>total > s\<close>, and \<open>nextOffset\<close> is defined exactly when \<open>hasMore\<close> is true, then equal to
  \<open>s\<close>. Whenever \<open>offset + count\<close> is at most \<open>2^53\<close> in absolute value, \<open>s\<close> is that sum, and
  \<open>hasMore\<close> and \<open>nextOffset\<close> are as the exact arithmetic gives them.
\<close>

theorem page_fields_double_sum:
  assumes "listFiles gw folder lo oo st = (Inr p, st') \<or> searchFiles gw q lo oo st = (Inr p, st')"
  shows "count p = length (items p)
       \<and> offset p = (case oo of None \<Rightarrow> 0 | Some x \<Rightarrow> x)
       \<and> (hasMore p \<longleftrightarrow> page_total p > double_sum (offset p) (count p))
       \<and> (nextOffset p \<noteq> None \<longleftrightarrow> hasMore p)
       \<and> (hasMore p \<longrightarrow> nextOffset p = Some (double_sum (offset p) (count p)))
       \<and> (\<bar>offset p + int (count p)\<bar> \<le> 2 ^ 53 \<longrightarrow>
            double_sum (offset p) (count p) = offset p + int (count p)
          \<and> (hasMore p \<longleftrightarrow> page_total p > offset p + int (count p))
          \<and> (\<not> hasMore p \<longleftrightarrow> offset p + int (count p) \<ge> page_total p)
          \<and> (hasMore p \<longrightarrow> nextOffset p = Some (offset p + int (count p))))"
proof -
  from assms obtain d where p: "p = page_of d (case oo of None \<Rightarrow> 0 | Some x \<Rightarrow> x)"
    using listFiles_Inr searchFiles_Inr by blast
  have 1: "count p = length (items p)" "offset p = (case oo of None \<Rightarrow> 0 | Some x \<Rightarrow> x)"
    "hasMore p \<longleftrightarrow> page_total p > double_sum (offset p) (count p)"
    "nextOffset p = (if hasMore p then Some (double_sum (offset p) (count p)) else None)"
    unfolding p by (simp_all add: page_of_fields)
  have 2: "double_sum (offset p) (count p) = offset p + int (count p)"
    if "\<bar>offset p + int (count p)\<bar> \<le> 2 ^ 53"
    using that by (rule double_sum_exact)
  from 1 2 show ?thesis by auto
qed

text \<open>A list call answered with two items and a total of five.\<close>

theorem page_fields_double_sum_witness:
  "listFiles (demo_gateway (Some 5)) None None None no_effects
     = (Inr \<lparr>items = [demo_file, demo_file], page_total = 5, count = 2, offset = 0, hasMore = True, nextOffset = Some 2\<rparr>,
        \<lparr>sent = [GetFiles None 20 0], uploadFile_calls = []\<rparr>)
   \<and> count \<lparr>items = [demo_file, demo_file], page_total = 5, count = 2, offset = 0, hasMore = True, nextOffset = Some 2\<rparr> = 2"
  using page_fields_double_sum [of "demo_gateway (Some 5)" None None None no_effects
     "\<lparr>items = [demo_file, demo_file], page_total = 5, count = 2, offset = 0, hasMore = True, nextOffset = Some 2\<rparr>"
     "\<lparr>sent = [GetFiles None 20 0], uploadFile_calls = []\<rparr>" "''x''"]
  by (simp add: listFiles_def demo_gateway_def page_of_def no_effects_def Let_def double_sum_exact)

lemma double_sum_examples:
  "double_sum 9007199254740992 (Suc 0) = 9007199254740992"
  "double_sum 9007199254740994 (Suc 0) = 9007199254740996"
  by (simp_all add: double_sum_def round_double_def shift_one Let_def)

text \<open>
  Claim C5 as stated fails from \<open>2^53\<close> on. A search at offset \<open>2^53\<close>, which the input schema
  accepts, answered with one item and a total of \<open>2^53 + 2\<close>, gives \<open>nextOffset = 2^53\<close>, the
  offset itself and not \<open>offset + count\<close>. At offset \<open>2^53 + 2\<close> with one item and a total of
  \<open>2^53 + 4\<close>, \<open>hasMore\<close> is false although \<open>total > offset + count\<close>.
\<close>

theorem page_fields_counterexample:
  "iagon_search_files (demo_gateway (Some 9007199254740994))
      (demo_search_raw JUndefined (JNumber 9007199254740992)) no_effects
     = (Page \<lparr>items = [demo_file], page_total = 9007199254740994, count = 1,
              offset = 9007199254740992, hasMore = True, nextOffset = Some 9007199254740992\<rparr>,
        \<lparr>sent = [GetSearch ''clip'' 20 9007199254740992], uploadFile_calls = []\<rparr>)
 \<and> (9007199254740992 :: int) \<noteq> 9007199254740992 + 1
 \<and> iagon_search_files (demo_gateway (Some 9007199254740996))
      (demo_search_raw JUndefined (JNumber 9007199254740994)) no_effects
     = (Page \<lparr>items = [demo_file], page_total = 9007199254740996, count = 1,
              offset = 9007199254740994, hasMore = False, nextOffset = None\<rparr>,
        \<lparr>sent = [GetSearch ''clip'' 20 9007199254740994], uploadFile_calls = []\<rparr>)
 \<and> (9007199254740996 :: int) > 9007199254740994 + 1"
  by (simp add: iagon_search_files_def SearchFilesSchema_def demo_search_raw_def limit_schema_def
      offset_schema_def query_schema_def response_format_schema_def is_integer_def
      DEFAULT_PAGE_LIMIT_def searchFiles_def demo_gateway_def page_of_def no_effects_def Let_def
      double_sum_examples)

lemma limit_schema_Inr: "limit_schema v = Inr l \<Longrightarrow> 1 \<le> l \<and> l \<le> 100 \<and> (v = JUndefined \<longrightarrow> l = 20)"
  by (auto simp: limit_schema_def Let_def MAX_PAGE_LIMIT_def DEFAULT_PAGE_LIMIT_def is_integer_def
        split: json.splits if_splits)

lemma offset_schema_Inr: "offset_schema v = Inr off \<Longrightarrow> 0 \<le> off \<and> (v = JUndefined \<longrightarrow> off = 0)"
  by (auto simp: offset_schema_def Let_def is_integer_def split: json.splits if_splits)

lemma limit_schema_reject: "r < 1 \<or> r > 100 \<Longrightarrow> \<exists>is. limit_schema (JNumber r) = Inl is \<and> is \<noteq> []"
  by (auto simp: limit_schema_def Let_def MAX_PAGE_LIMIT_def)

lemma offset_schema_reject: "r < 0 \<Longrightarrow> \<exists>is. offset_schema (JNumber r) = Inl is \<and> is \<noteq> []"
  by (auto simp: offset_schema_def Let_def)

lemma ListFilesSchema_Inr:
  "ListFilesSchema raw = Inr p \<Longrightarrow>
     limit_schema (raw_limit raw) = Inr (limit p) \<and> offset_schema (raw_offset raw) = Inr (offset_arg p)"
  by (auto simp: ListFilesSchema_def split: sum.splits)

lemma SearchFilesSchema_Inr:
  "SearchFilesSchema raw = Inr p \<Longrightarrow>
     limit_schema (sraw_limit raw) = Inr (s_limit p) \<and> offset_schema (sraw_offset raw) = Inr (s_offset p)"
  by (auto simp: SearchFilesSchema_def split: sum.splits)

lemma page_of_no_total:
  assumes "body_total d = None \<or> body_total d = Some 0" and "0 \<le> off"
  shows "page_total (page_of d off) = int (length (items (page_of d off)))
       \<and> \<not> hasMore (page_of d off) \<and> nextOffset (page_of d off) = None"
  using assms double_sum_lower [of off "length (items (page_of d off))"]
  by (auto simp: page_of_def Let_def)

lemma iagon_list_files_accepted:
  assumes "ListFilesSchema raw = Inr params"
  shows "iagon_list_files gw raw st =
     (case get_files gw (sent st) (folder_id params) (limit params) (offset_arg params) of
        Inl e \<Rightarrow> ToolError (''Error: '' @ handleError e)
      | Inr d \<Rightarrow> Page (page_of d (offset_arg params)),
      st\<lparr>sent := sent st @ [GetFiles (folder_id params) (limit params) (offset_arg params)]\<rparr>)"
  using assms by (simp add: iagon_list_files_def listFiles_def Let_def split: sum.splits)

lemma iagon_search_files_accepted:
  assumes "SearchFilesSchema raw = Inr params"
  shows "iagon_search_files gw raw st =
     (case get_search gw (sent st) (s_query params) (s_limit params) (s_offset params) of
        Inl e \<Rightarrow> ToolError (''Error: '' @ handleError e)
      | Inr d \<Rightarrow> Page (page_of d (s_offset params)),
      st\<lparr>sent := sent st @ [GetSearch (s_query params) (s_limit params) (s_offset params)]\<rparr>)"
  using assms by (simp add: iagon_search_files_def searchFiles_def Let_def split: sum.splits)

text \<open>
  Claim C9. When the body of the gateway's answer has no \<open>total\<close> field, or a total of 0,
  the page returned for a validated list or search request has \<open>total\<close> equal to the number
  of items of that answer, \<open>hasMore\<close> false and \<open>nextOffset\<close> undefined, whatever the remote
  collection holds. The offset is not negative here because the input schema has accepted it.
\<close>

theorem missing_total_forces_last_page:
  "(ListFilesSchema raw = Inr params
      \<and> get_files gw (sent st) (folder_id params) (limit params) (offset_arg params) = Inr data
      \<and> (body_total data = None \<or> body_total data = Some 0)
    \<longrightarrow> (\<exists>p st'. iagon_list_files gw raw st = (Page p, st')
           \<and> page_total p = int (length (items p)) \<and> \<not> hasMore p \<and> nextOffset p = None))
 \<and> (SearchFilesSchema sraw = Inr sparams
      \<and> get_search gw (sent st) (s_query sparams) (s_limit sparams) (s_offset sparams) = Inr data
      \<and> (body_total data = None \<or> body_total data = Some 0)
    \<longrightarrow> (\<exists>p st'. iagon_search_files gw sraw st = (Page p, st')
           \<and> page_total p = int (length (items p)) \<and> \<not> hasMore p \<and> nextOffset p = None))"
proof (intro conjI impI)
  assume a: "ListFilesSchema raw = Inr params
      \<and> get_files gw (sent st) (folder_id params) (limit params) (offset_arg params) = Inr data
      \<and> (body_total data = None \<or> body_total data = Some 0)"
  then have "0 \<le> offset_arg params"
    using ListFilesSchema_Inr offset_schema_Inr by blast
  with a show "\<exists>p st'. iagon_list_files gw raw st = (Page p, st')
           \<and> page_total p = int (length (items p)) \<and> \<not> hasMore p \<and> nextOffset p = None"
    using page_of_no_total [of data "offset_arg params"]
    by (simp add: iagon_list_files_accepted)
next
  assume a: "SearchFilesSchema sraw = Inr sparams
      \<and> get_search gw (sent st) (s_query sparams) (s_limit sparams) (s_offset sparams) = Inr data
      \<and> (body_total data = None \<or> body_total data = Some 0)"
  then have "0 \<le> s_offset sparams"
    using SearchFilesSchema_Inr offset_schema_Inr by blast
  with a show "\<exists>p st'. iagon_search_files gw sraw st = (Page p, st')
           \<and> page_total p = int (length (items p)) \<and> \<not> hasMore p \<and> nextOffset p = None"
    using page_of_no_total [of data "s_offset sparams"]
    by (simp add: iagon_search_files_accepted)
qed

text \<open>
  Claim C7. A list or search request whose \<open>limit\<close> lies outside \<open>[1, 100]\<close> or whose
  \<open>offset\<close> is negative is rejected by the input schema and leaves the effects unchanged:
  no request reaches the gateway. An accepted request has its limit in \<open>[1, 100]\<close> and its
  offset at least 0; an omitted limit is 20 and an omitted offset is 0, and these are the
  values of the single request sent.
\<close>

theorem pagination_validation:
  "(raw_limit raw = JNumber r \<and> (r < 1 \<or> r > 100)
      \<longrightarrow> (\<exists>is. iagon_list_files gw raw st = (Rejected is, st)))
 \<and> (raw_offset raw = JNumber r \<and> r < 0
      \<longrightarrow> (\<exists>is. iagon_list_files gw raw st = (Rejected is, st)))
 \<and> (sraw_limit sraw = JNumber r \<and> (r < 1 \<or> r > 100)
      \<longrightarrow> (\<exists>is. iagon_search_files gw sraw st = (Rejected is, st)))
 \<and> (sraw_offset sraw = JNumber r \<and> r < 0
      \<longrightarrow> (\<exists>is. iagon_search_files gw sraw st = (Rejected is, st)))
 \<and> (ListFilesSchema raw = Inr params
      \<longrightarrow> 1 \<le> limit params \<and> limit params \<le> 100 \<and> 0 \<le> offset_arg params
        \<and> (raw_limit raw = JUndefined \<longrightarrow> limit params = 20)
        \<and> (raw_offset raw = JUndefined \<longrightarrow> offset_arg params = 0)
        \<and> sent (snd (iagon_list_files gw raw st))
            = sent st @ [GetFiles (folder_id params) (limit params) (offset_arg params)])
 \<and> (SearchFilesSchema sraw = Inr sparams
      \<longrightarrow> 1 \<le> s_limit sparams \<and> s_limit sparams \<le> 100 \<and> 0 \<le> s_offset sparams
        \<and> (sraw_limit sraw = JUndefined \<longrightarrow> s_limit sparams = 20)
        \<and> (sraw_offset sraw = JUndefined \<longrightarrow> s_offset sparams = 0)
        \<and> sent (snd (iagon_search_files gw sraw st))
            = sent st @ [GetSearch (s_query sparams) (s_limit sparams) (s_offset sparams)])"
proof -
  have rej_list: "\<exists>is. iagon_list_files gw raw st = (Rejected is, st)"
    if "limit_schema (raw_limit raw) = Inl a \<or> offset_schema (raw_offset raw) = Inl a" for a
    using that by (auto simp: iagon_list_files_def ListFilesSchema_def split: sum.splits)
  have rej_search: "\<exists>is. iagon_search_files gw sraw st = (Rejected is, st)"
    if "limit_schema (sraw_limit sraw) = Inl a \<or> offset_schema (sraw_offset sraw) = Inl a" for a
    using that by (auto simp: iagon_search_files_def SearchFilesSchema_def split: sum.splits)
  have 1: "raw_limit raw = JNumber r \<and> (r < 1 \<or> r > 100)
      \<longrightarrow> (\<exists>is. iagon_list_files gw raw st = (Rejected is, st))"
    using limit_schema_reject [of r] rej_list by fastforce
  have 2: "raw_offset raw = JNumber r \<and> r < 0
      \<longrightarrow> (\<exists>is. iagon_list_files gw raw st = (Rejected is, st))"
    using offset_schema_reject [of r] rej_list by fastforce
  have 3: "sraw_limit sraw = JNumber r \<and> (r < 1 \<or> r > 100)
      \<longrightarrow> (\<exists>is. iagon_search_files gw sraw st = (Rejected is, st))"
    using limit_schema_reject [of r] rej_search by fastforce
  have 4: "sraw_offset sraw = JNumber r \<and> r < 0
      \<longrightarrow> (\<exists>is. iagon_search_files gw sraw st = (Rejected is, st))"
    using offset_schema_reject [of r] rej_search by fastforce
  have 5: "ListFilesSchema raw = Inr params
      \<longrightarrow> 1 \<le> limit params \<and> limit params \<le> 100 \<and> 0 \<le> offset_arg params
        \<and> (raw_limit raw = JUndefined \<longrightarrow> limit params = 20)
        \<and> (raw_offset raw = JUndefined \<longrightarrow> offset_arg params = 0)
        \<and> sent (snd (iagon_list_files gw raw st))
            = sent st @ [GetFiles (folder_id params) (limit params) (offset_arg params)]"
    using ListFilesSchema_Inr [of raw params] limit_schema_Inr [of "raw_limit raw" "limit params"]
      offset_schema_Inr [of "raw_offset raw" "offset_arg params"]
    by (auto simp add: iagon_list_files_accepted)
  have 6: "SearchFilesSchema sraw = Inr sparams
      \<longrightarrow> 1 \<le> s_limit sparams \<and> s_limit sparams \<le> 100 \<and> 0 \<le> s_offset sparams
        \<and> (sraw_limit sraw = JUndefined \<longrightarrow> s_limit sparams = 20)
        \<and> (sraw_offset sraw = JUndefined \<longrightarrow> s_offset sparams = 0)
        \<and> sent (snd (iagon_search_files gw sraw st))
            = sent st @ [GetSearch (s_query sparams) (s_limit sparams) (s_offset sparams)]"
    using SearchFilesSchema_Inr [of sraw sparams] limit_schema_Inr [of "sraw_limit sraw" "s_limit sparams"]
      offset_schema_Inr [of "sraw_offset sraw" "s_offset sparams"]
    by (auto simp add: iagon_search_files_accepted)
  from 1 2 3 4 5 6 show ?thesis by blast
qed

lemma demo_schemas:
  "ListFilesSchema (demo_list_raw JUndefined JUndefined) = Inr (demo_list_params 20 0)"
  "ListFilesSchema (demo_list_raw JUndefined (JNumber 40)) = Inr (demo_list_params 20 40)"
  "SearchFilesSchema (demo_search_raw JUndefined JUndefined) = Inr (demo_search_params 20 0)"
  "SearchFilesSchema (demo_search_raw (JNumber 5) (JNumber 3)) = Inr (demo_search_params 5 3)"
  by (simp_all add: ListFilesSchema_def SearchFilesSchema_def demo_list_raw_def demo_search_raw_def
      demo_list_params_def demo_search_params_def limit_schema_def offset_schema_def
      optional_string_def response_format_schema_def query_schema_def is_integer_def
      DEFAULT_PAGE_LIMIT_def MAX_PAGE_LIMIT_def Let_def)

text \<open>A list request at offset 40 answered without a total, a search answered with total 0.\<close>

theorem missing_total_forces_last_page_witness:
  "ListFilesSchema (demo_list_raw JUndefined (JNumber 40)) = Inr (demo_list_params 20 40)
 \<and> (\<exists>p st'. iagon_list_files (demo_gateway None) (demo_list_raw JUndefined (JNumber 40)) no_effects = (Page p, st')
           \<and> page_total p = 2 \<and> \<not> hasMore p \<and> nextOffset p = None)
 \<and> SearchFilesSchema (demo_search_raw (JNumber 5) (JNumber 3)) = Inr (demo_search_params 5 3)
 \<and> (\<exists>p st'. iagon_search_files (demo_gateway (Some 0)) (demo_search_raw (JNumber 5) (JNumber 3)) no_effects = (Page p, st')
           \<and> page_total p = 1 \<and> \<not> hasMore p \<and> nextOffset p = None)"
proof -
  let ?b1 = "\<lparr>body_files = Some [demo_file, demo_file], body_items = None, body_total = None\<rparr>"
  let ?b2 = "\<lparr>body_files = None, body_items = Some [demo_file], body_total = Some 0\<rparr>"
  have 1: "\<exists>p st'. iagon_list_files (demo_gateway None) (demo_list_raw JUndefined (JNumber 40)) no_effects = (Page p, st')
           \<and> page_total p = int (length (items p)) \<and> \<not> hasMore p \<and> nextOffset p = None"
    using missing_total_forces_last_page [of "demo_list_raw JUndefined (JNumber 40)" "demo_list_params 20 40"
        "demo_gateway None" no_effects ?b1]
    by (simp add: demo_schemas demo_gateway_def demo_list_params_def)
  have 2: "\<exists>p st'. iagon_search_files (demo_gateway (Some 0)) (demo_search_raw (JNumber 5) (JNumber 3)) no_effects = (Page p, st')
           \<and> page_total p = int (length (items p)) \<and> \<not> hasMore p \<and> nextOffset p = None"
    using missing_total_forces_last_page [of _ _ "demo_gateway (Some 0)" no_effects ?b2
        "demo_search_raw (JNumber 5) (JNumber 3)" "demo_search_params 5 3"]
    by (simp add: demo_schemas demo_gateway_def demo_search_params_def)
  have 3: "iagon_list_files (demo_gateway None) (demo_list_raw JUndefined (JNumber 40)) no_effects
        = (Page (page_of ?b1 40), \<lparr>sent = [GetFiles None 20 40], uploadFile_calls = []\<rparr>)"
    by (simp add: iagon_list_files_accepted [OF demo_schemas(2)] demo_gateway_def demo_list_params_def no_effects_def)
  have 4: "iagon_search_files (demo_gateway (Some 0)) (demo_search_raw (JNumber 5) (JNumber 3)) no_effects
        = (Page (page_of ?b2 3), \<lparr>sent = [GetSearch ''clip'' 5 3], uploadFile_calls = []\<rparr>)"
    by (simp add: iagon_search_files_accepted [OF demo_schemas(4)] demo_gateway_def demo_search_params_def no_effects_def)
  from 1 2 show ?thesis
    unfolding 3 4 by (simp add: demo_schemas page_of_def Let_def)
qed

text \<open>Limits 101 and 0 and offset -1 are rejected; omitted values are sent as 20 and 0.\<close>

theorem pagination_validation_witness:
  "(\<exists>is. iagon_list_files (demo_gateway None) (demo_list_raw (JNumber 101) JUndefined) no_effects = (Rejected is, no_effects))
 \<and> (\<exists>is. iagon_list_files (demo_gateway None) (demo_list_raw (JNumber 0) JUndefined) no_effects = (Rejected is, no_effects))
 \<and> (\<exists>is. iagon_search_files (demo_gateway None) (demo_search_raw JUndefined (JNumber (-1))) no_effects = (Rejected is, no_effects))
 \<and> sent (snd (iagon_list_files (demo_gateway None) (demo_list_raw JUndefined JUndefined) no_effects)) = [GetFiles None 20 0]
 \<and> sent (snd (iagon_search_files (demo_gateway None) (demo_search_raw JUndefined JUndefined) no_effects)) = [GetSearch ''clip'' 20 0]"
proof -
  note v = pagination_validation [where gw = "demo_gateway None" and st = no_effects]
  have 1: "\<exists>is. iagon_list_files (demo_gateway None) (demo_list_raw (JNumber 101) JUndefined) no_effects = (Rejected is, no_effects)"
    using v [where raw = "demo_list_raw (JNumber 101) JUndefined" and r = 101]
    by (simp add: demo_list_raw_def)
  have 2: "\<exists>is. iagon_list_files (demo_gateway None) (demo_list_raw (JNumber 0) JUndefined) no_effects = (Rejected is, no_effects)"
    using v [where raw = "demo_list_raw (JNumber 0) JUndefined" and r = 0]
    by (simp add: demo_list_raw_def)
  have 3: "\<exists>is. iagon_search_files (demo_gateway None) (demo_search_raw JUndefined (JNumber (-1))) no_effects = (Rejected is, no_effects)"
    using v [where sraw = "demo_search_raw JUndefined (JNumber (-1))" and r = "-1"]
    by (simp add: demo_search_raw_def)
  have 4: "sent (snd (iagon_list_files (demo_gateway None) (demo_list_raw JUndefined JUndefined) no_effects)) = [GetFiles None 20 0]"
    using v [where raw = "demo_list_raw JUndefined JUndefined" and params = "demo_list_params 20 0"]
    by (simp add: demo_schemas demo_list_params_def no_effects_def)
  have 5: "sent (snd (iagon_search_files (demo_gateway None) (demo_search_raw JUndefined JUndefined) no_effects)) = [GetSearch ''clip'' 20 0]"
    using v [where sraw = "demo_search_raw JUndefined JUndefined" and sparams = "demo_search_params 20 0"]
    by (simp add: demo_schemas demo_search_params_def no_effects_def)
  from 1 2 3 4 5 show ?thesis by blast
qed

section \<open>Batch loops: lemmas\<close>

lemma uploadFile_effects:
  "uploadFile_calls (snd (uploadFile fmt fs gw p rp st)) = uploadFile_calls st @ [p]"
  "sent (snd (uploadFile fmt fs gw p None st))
     = sent st @ (if uploadable fs p then [PostUpload p (basename p)] else [])"
  by (auto simp: uploadFile_def uploadable_def Let_def split: option.splits sum.splits)

text \<open>What one pass through a loop body does to the summary, given the entry \<open>e\<close> it appends.\<close>

lemma check_and_upload_skip:
  "stat_size nd > FILE_SIZE_LIMIT \<Longrightarrow>
   check_and_upload fmt fs gw p nd (r, st) =
     (r\<lparr>skipped := skipped r + 1,
        results := results r @
          [\<lparr>o_path = p, o_status = Skipped,
            o_message = ''Exceeds 40MB limit ('' @ fmt (stat_size nd) @ '')'', o_fileId = None\<rparr>]\<rparr>, st)"
  by (simp add: check_and_upload_def)

lemma check_and_upload_shape:
  "\<exists>e. results (fst (check_and_upload fmt fs gw p nd (r, st))) = results r @ [e]
     \<and> o_path e = p
     \<and> total (fst (check_and_upload fmt fs gw p nd (r, st))) = total r
     \<and> successful (fst (check_and_upload fmt fs gw p nd (r, st))) = successful r + (if o_status e = Success then 1 else 0)
     \<and> failed (fst (check_and_upload fmt fs gw p nd (r, st))) = failed r + (if o_status e = Failed then 1 else 0)
     \<and> skipped (fst (check_and_upload fmt fs gw p nd (r, st))) = skipped r + (if o_status e = Skipped then 1 else 0)
     \<and> (if stat_size nd > FILE_SIZE_LIMIT
         then e = \<lparr>o_path = p, o_status = Skipped,
                   o_message = ''Exceeds 40MB limit ('' @ fmt (stat_size nd) @ '')'', o_fileId = None\<rparr>
              \<and> snd (check_and_upload fmt fs gw p nd (r, st)) = st
         else o_status e \<noteq> Skipped
              \<and> snd (check_and_upload fmt fs gw p nd (r, st)) = snd (uploadFile fmt fs gw p None st))"
proof (cases "stat_size nd > FILE_SIZE_LIMIT")
  case True
  then show ?thesis by (simp add: check_and_upload_skip)
next
  case False
  obtain u st' where u: "uploadFile fmt fs gw p None st = (u, st')" by (cases "uploadFile fmt fs gw p None st")
  show ?thesis
  proof (cases "success u")
    case True
    with False u show ?thesis
      by (intro exI [of _ "\<lparr>o_path = p, o_status = Success,
             o_message = ''Uploaded ('' @ fmt (stat_size nd) @ '')'', o_fileId = fileId u\<rparr>"])
         (simp add: check_and_upload_def)
  next
    case no: False
    with False u show ?thesis
      by (intro exI [of _ "\<lparr>o_path = p, o_status = Failed, o_message = message u, o_fileId = None\<rparr>"])
         (simp add: check_and_upload_def)
  qed
qed

lemma bulk_upload_item_missing:
  "statSync fs p = None \<Longrightarrow>
   bulk_upload_item fmt fs gw p (r, st) =
     (r\<lparr>failed := failed r + 1,
        results := results r @
          [\<lparr>o_path = p, o_status = Failed, o_message = ''File not found'', o_fileId = None\<rparr>]\<rparr>, st)"
  by (simp add: bulk_upload_item_def)

lemma bulk_upload_item_shape:
  "\<exists>e. results (fst (bulk_upload_item fmt fs gw p (r, st))) = results r @ [e]
     \<and> o_path e = p
     \<and> total (fst (bulk_upload_item fmt fs gw p (r, st))) = total r
     \<and> successful (fst (bulk_upload_item fmt fs gw p (r, st))) = successful r + (if o_status e = Success then 1 else 0)
     \<and> failed (fst (bulk_upload_item fmt fs gw p (r, st))) = failed r + (if o_status e = Failed then 1 else 0)
     \<and> skipped (fst (bulk_upload_item fmt fs gw p (r, st))) = skipped r + (if o_status e = Skipped then 1 else 0)
     \<and> (case statSync fs p of
           None \<Rightarrow> e = \<lparr>o_path = p, o_status = Failed, o_message = ''File not found'', o_fileId = None\<rparr>
                  \<and> snd (bulk_upload_item fmt fs gw p (r, st)) = st
         | Some nd \<Rightarrow>
             if stat_size nd > FILE_SIZE_LIMIT
             then e = \<lparr>o_path = p, o_status = Skipped,
                       o_message = ''Exceeds 40MB limit ('' @ fmt (stat_size nd) @ '')'', o_fileId = None\<rparr>
                  \<and> snd (bulk_upload_item fmt fs gw p (r, st)) = st
             else o_status e \<noteq> Skipped
                  \<and> snd (bulk_upload_item fmt fs gw p (r, st)) = snd (uploadFile fmt fs gw p None st))"
proof (cases "statSync fs p")
  case None
  then show ?thesis by (simp add: bulk_upload_item_missing)
next
  case (Some nd)
  then have eq: "bulk_upload_item fmt fs gw p (r, st) = check_and_upload fmt fs gw p nd (r, st)"
    by (simp add: bulk_upload_item_def)
  show ?thesis
    unfolding eq Some option.case by (rule check_and_upload_shape)
qed

lemma count_status_simps [simp]:
  "count_status s [] = 0"
  "count_status s (e # es) = (if o_status e = s then 1 else 0) + count_status s es"
  by (simp_all add: count_status_def)

lemma bulk_upload_item_step:
  obtains e r1 st1 where
    "bulk_upload_item fmt fs gw p (r, st) = (r1, st1)"
    "results r1 = results r @ [e]" "expected_entry fmt fs p e" "total r1 = total r"
    "successful r1 = successful r + count_status Success [e]"
    "failed r1 = failed r + count_status Failed [e]"
    "skipped r1 = skipped r + count_status Skipped [e]"
    "uploadFile_calls st1 = uploadFile_calls st @ (if uploadable fs p then [p] else [])"
    "sent st1 = sent st @ (if uploadable fs p then [PostUpload p (basename p)] else [])"
proof -
  obtain r1 st1 where rs: "bulk_upload_item fmt fs gw p (r, st) = (r1, st1)"
    by (cases "bulk_upload_item fmt fs gw p (r, st)")
  from bulk_upload_item_shape [of fmt fs gw p r st] obtain e where
    e: "results r1 = results r @ [e]" "o_path e = p" "total r1 = total r"
       "successful r1 = successful r + (if o_status e = Success then 1 else 0)"
       "failed r1 = failed r + (if o_status e = Failed then 1 else 0)"
       "skipped r1 = skipped r + (if o_status e = Skipped then 1 else 0)"
       "(case statSync fs p of
           None \<Rightarrow> e = \<lparr>o_path = p, o_status = Failed, o_message = ''File not found'', o_fileId = None\<rparr>
                  \<and> st1 = st
         | Some nd \<Rightarrow>
             if stat_size nd > FILE_SIZE_LIMIT
             then e = \<lparr>o_path = p, o_status = Skipped,
                       o_message = ''Exceeds 40MB limit ('' @ fmt (stat_size nd) @ '')'', o_fileId = None\<rparr>
                  \<and> st1 = st
             else o_status e \<noteq> Skipped
                  \<and> st1 = snd (uploadFile fmt fs gw p None st))"
    unfolding rs fst_conv snd_conv by blast
  have 1: "expected_entry fmt fs p e"
    using e(2,7) by (auto simp: expected_entry_def split: option.splits if_splits)
  have 2: "uploadFile_calls st1 = uploadFile_calls st @ (if uploadable fs p then [p] else [])"
    using e(7) uploadFile_effects(1) [of fmt fs gw p None st]
    by (auto simp: uploadable_def split: option.splits if_splits)
  have 3: "sent st1 = sent st @ (if uploadable fs p then [PostUpload p (basename p)] else [])"
    using e(7) uploadFile_effects(2) [of fmt fs gw p st]
    by (auto simp: uploadable_def split: option.splits if_splits)
  show thesis
    using that [OF rs e(1) 1 e(3)] e(4,5,6) 2 3 by simp
qed

lemma bulk_upload_loop_shape:
  "\<exists>es. results (fst (bulk_upload_loop fmt fs gw ps (r, st))) = results r @ es
     \<and> list_all2 (expected_entry fmt fs) ps es
     \<and> total (fst (bulk_upload_loop fmt fs gw ps (r, st))) = total r
     \<and> successful (fst (bulk_upload_loop fmt fs gw ps (r, st))) = successful r + count_status Success es
     \<and> failed (fst (bulk_upload_loop fmt fs gw ps (r, st))) = failed r + count_status Failed es
     \<and> skipped (fst (bulk_upload_loop fmt fs gw ps (r, st))) = skipped r + count_status Skipped es
     \<and> uploadFile_calls (snd (bulk_upload_loop fmt fs gw ps (r, st)))
         = uploadFile_calls st @ filter (uploadable fs) ps
     \<and> sent (snd (bulk_upload_loop fmt fs gw ps (r, st)))
         = sent st @ map (\<lambda>p. PostUpload p (basename p)) (filter (uploadable fs) ps)"
proof (induction ps arbitrary: r st)
  case Nil
  show ?case by simp
next
  case (Cons p ps)
  obtain e r1 st1 where s:
    "bulk_upload_item fmt fs gw p (r, st) = (r1, st1)"
    "results r1 = results r @ [e]" "expected_entry fmt fs p e" "total r1 = total r"
    "successful r1 = successful r + count_status Success [e]"
    "failed r1 = failed r + count_status Failed [e]"
    "skipped r1 = skipped r + count_status Skipped [e]"
    "uploadFile_calls st1 = uploadFile_calls st @ (if uploadable fs p then [p] else [])"
    "sent st1 = sent st @ (if uploadable fs p then [PostUpload p (basename p)] else [])"
    by (rule bulk_upload_item_step)
  from Cons.IH [of r1 st1] obtain es where es:
    "results (fst (bulk_upload_loop fmt fs gw ps (r1, st1))) = results r1 @ es"
    "list_all2 (expected_entry fmt fs) ps es"
    "total (fst (bulk_upload_loop fmt fs gw ps (r1, st1))) = total r1"
    "successful (fst (bulk_upload_loop fmt fs gw ps (r1, st1))) = successful r1 + count_status Success es"
    "failed (fst (bulk_upload_loop fmt fs gw ps (r1, st1))) = failed r1 + count_status Failed es"
    "skipped (fst (bulk_upload_loop fmt fs gw ps (r1, st1))) = skipped r1 + count_status Skipped es"
    "uploadFile_calls (snd (bulk_upload_loop fmt fs gw ps (r1, st1)))
         = uploadFile_calls st1 @ filter (uploadable fs) ps"
    "sent (snd (bulk_upload_loop fmt fs gw ps (r1, st1)))
         = sent st1 @ map (\<lambda>p. PostUpload p (basename p)) (filter (uploadable fs) ps)"
    by blast
  show ?case
    apply (rule exI [of _ "e # es"])
    using s(2-9) es(1-8) by (simp add: s(1))
qed

section \<open>Directory enumeration: lemmas\<close>

lemma statSync_append:
  "statSync fs (p @ q) = (case statSync fs p of None \<Rightarrow> None | Some nd \<Rightarrow> statSync nd q)"
  by (induction fs p rule: statSync.induct) (auto split: option.splits)

lemma statSync_File_Nil: "statSync (File m) q = Some nd \<Longrightarrow> q = [] \<and> nd = File m"
  by (cases q) auto

lemma statSync_Special: "statSync (Special m) q \<noteq> Some (File k)"
  by (cases q) auto

lemma statSync_Dir_name:
  "statSync (Dir n es) (c # cs) = Some x \<Longrightarrow> c \<in> fst ` set es"
  by (auto split: option.splits dest: map_of_SomeD simp: rev_image_eqI)

lemma wf_statSync: "wf_node fs \<Longrightarrow> statSync fs p = Some nd \<Longrightarrow> wf_node nd"
proof (induction fs p rule: statSync.induct)
  case (2 n es c cs)
  then obtain x where x: "map_of es c = Some x" "statSync x cs = Some nd"
    by (auto split: option.splits)
  then have "(c, x) \<in> set es" by (auto dest: map_of_SomeD)
  with "2.prems"(1) have "wf_node x" by (auto simp: list_all_iff)
  with 2 x show ?case by simp
qed auto

lemma statSync_Dir_split:
  assumes "nm \<notin> fst ` set rest" and "q \<noteq> []"
  shows "statSync (Dir n ((nm, nd) # rest)) q = Some x
     \<longleftrightarrow> (\<exists>cs. q = nm # cs \<and> statSync nd cs = Some x) \<or> statSync (Dir n rest) q = Some x"
proof (cases q)
  case Nil
  with assms show ?thesis by simp
next
  case (Cons c cs)
  show ?thesis
  proof (cases "c = nm")
    case True
    have "statSync (Dir n rest) (nm # cs) \<noteq> Some x"
      using statSync_Dir_name [of n rest nm cs x] assms(1) by blast
    with True Cons show ?thesis by simp
  next
    case False
    with Cons show ?thesis by simp
  qed
qed

lemma below_Nil: "below rx dir (Dir n []) r pat = {}"
proof -
  have "\<And>q. q \<noteq> [] \<Longrightarrow> statSync (Dir n []) q = None" by (case_tac q) auto
  then show ?thesis by (auto simp: below_def)
qed

lemma below_Cons:
  assumes "nm \<notin> fst ` set rest"
  shows "below rx dir (Dir n ((nm, nd) # rest)) r pat =
     below_head rx dir nm nd r pat \<union> below rx dir (Dir n rest) r pat"
  (is "?L = ?H \<union> ?R")
proof (intro set_eqI iffI)
  fix x assume "x \<in> ?L"
  then obtain q m where q: "x = dir @ q" "q \<noteq> []" "r \<or> length q = 1"
      "statSync (Dir n ((nm, nd) # rest)) q = Some (File m)" "name_filter rx pat (last q) = Inr True"
    by (auto simp: below_def)
  from q(4) statSync_Dir_split [OF assms q(2)]
  consider cs where "q = nm # cs" "statSync nd cs = Some (File m)" | "statSync (Dir n rest) q = Some (File m)"
    by blast
  then show "x \<in> ?H \<union> ?R"
  proof cases
    case 1
    with q have "x \<in> ?H" by (auto simp: below_head_def)
    then show ?thesis by simp
  next
    case 2
    with q have "x \<in> ?R" by (auto simp: below_def)
    then show ?thesis by simp
  qed
next
  fix x assume "x \<in> ?H \<union> ?R"
  then consider "x \<in> ?H" | "x \<in> ?R" by blast
  then show "x \<in> ?L"
  proof cases
    case 1
    then obtain cs m where c: "x = dir @ (nm # cs)" "r \<or> cs = []" "statSync nd cs = Some (File m)"
        "name_filter rx pat (last (nm # cs)) = Inr True"
      by (auto simp: below_head_def)
    have "statSync (Dir n ((nm, nd) # rest)) (nm # cs) = Some (File m)"
      using c(3) by simp
    with c show ?thesis
      unfolding below_def by (intro CollectI exI [of _ "nm # cs"]) auto
  next
    case 2
    then obtain q m where q: "x = dir @ q" "q \<noteq> []" "r \<or> length q = 1"
        "statSync (Dir n rest) q = Some (File m)" "name_filter rx pat (last q) = Inr True"
      by (auto simp: below_def)
    have "statSync (Dir n ((nm, nd) # rest)) q = Some (File m)"
      using statSync_Dir_split [OF assms q(2)] q(4) by blast
    with q show ?thesis
      unfolding below_def by (intro CollectI exI [of _ q]) auto
  qed
qed

lemma head_File:
  "below_head rx dir nm (File k) r pat = (if name_filter rx pat nm = Inr True then {dir @ [nm]} else {})"
  by (auto simp: below_head_def dest: statSync_File_Nil)

lemma head_Special: "below_head rx dir nm (Special k) r pat = {}"
  by (auto simp: below_head_def statSync_Special)

lemma head_Dir:
  "below_head rx dir nm (Dir k sub) r pat = (if r then below rx (dir @ [nm]) (Dir k sub) True pat else {})"
proof (cases r)
  case False
  have "\<And>m. statSync (Dir k sub) [] \<noteq> Some (File m)" by simp
  with False show ?thesis by (auto simp: below_head_def)
next
  case True
  have "below_head rx dir nm (Dir k sub) True pat = below rx (dir @ [nm]) (Dir k sub) True pat"
  proof (intro set_eqI iffI)
    fix x assume "x \<in> below_head rx dir nm (Dir k sub) True pat"
    then obtain cs m where c: "x = dir @ (nm # cs)" "statSync (Dir k sub) cs = Some (File m)"
        "name_filter rx pat (last (nm # cs)) = Inr True"
      by (auto simp: below_head_def)
    from c(2) have ne: "cs \<noteq> []" by auto
    with c(3) have "name_filter rx pat (last cs) = Inr True" by simp
    with c ne show "x \<in> below rx (dir @ [nm]) (Dir k sub) True pat"
      unfolding below_def by (intro CollectI exI [of _ cs]) auto
  next
    fix x assume "x \<in> below rx (dir @ [nm]) (Dir k sub) True pat"
    then obtain q m where q: "x = (dir @ [nm]) @ q" "q \<noteq> []" "statSync (Dir k sub) q = Some (File m)"
        "name_filter rx pat (last q) = Inr True"
      by (auto simp: below_def)
    then show "x \<in> below_head rx dir nm (Dir k sub) True pat"
      unfolding below_head_def by (intro CollectI exI [of _ q]) auto
  qed
  with True show ?thesis by simp
qed

lemma scan_entries_set:
  assumes "distinct (map fst es)" "list_all (\<lambda>e. wf_node (snd e)) es"
    and "scan_entries rx dir es r pat = Inr files"
  shows "set files = below rx dir (Dir n es) r pat"
  using assms
proof (induction rx dir es r pat arbitrary: files n rule: scan_entries.induct)
  case (1 rx dirPath recursive pattern)
  then show ?case by (simp add: below_Nil)
next
  case (2 rx dirPath nm k sub rest recursive pattern)
  have nm: "nm \<notin> fst ` set rest" using "2.prems"(1) by auto
  have d: "distinct (map fst rest)" "list_all (\<lambda>e. wf_node (snd e)) rest"
          "distinct (map fst sub)" "list_all (\<lambda>e. wf_node (snd e)) sub"
    using "2.prems"(1,2) by auto
  show ?case
  proof (cases recursive)
    case True
    with "2.prems"(3) obtain nested fs' where
      n: "scan_entries rx (dirPath @ [nm]) sub recursive pattern = Inr nested"
         "scan_entries rx dirPath rest recursive pattern = Inr fs'" "files = nested @ fs'"
      by (auto split: sum.splits)
    have "set nested = below rx (dirPath @ [nm]) (Dir k sub) recursive pattern"
      using "2.IH"(1) [OF True d(3,4) n(1)] .
    moreover have "set fs' = below rx dirPath (Dir n rest) recursive pattern"
      using "2.IH"(2) [OF True n(1) d(1,2) n(2)] .
    ultimately show ?thesis
      using True n(3) by (simp add: below_Cons [OF nm] head_Dir)
  next
    case False
    with "2.prems"(3) have "scan_entries rx dirPath rest recursive pattern = Inr files" by simp
    then have "set files = below rx dirPath (Dir n rest) recursive pattern"
      using "2.IH"(3) [OF False d(1,2)] by simp
    then show ?thesis
      using False by (simp add: below_Cons [OF nm] head_Dir)
  qed
next
  case (3 rx dirPath nm k rest recursive pattern)
  have nm: "nm \<notin> fst ` set rest" using "3.prems"(1) by auto
  have d: "distinct (map fst rest)" "list_all (\<lambda>e. wf_node (snd e)) rest"
    using "3.prems"(1,2) by auto
  from "3.prems"(3) obtain b where b: "name_filter rx pattern nm = Inr b"
    by (auto split: sum.splits)
  show ?case
  proof (cases b)
    case True
    with b "3.prems"(3) obtain fs' where
      f: "scan_entries rx dirPath rest recursive pattern = Inr fs'" "files = (dirPath @ [nm]) # fs'"
      by (auto split: sum.splits)
    have "set fs' = below rx dirPath (Dir n rest) recursive pattern"
      using "3.IH" b True d f(1) by blast
    then show ?thesis
      using True b f(2) by (simp add: below_Cons [OF nm] head_File)
  next
    case False
    with b "3.prems"(3) have "scan_entries rx dirPath rest recursive pattern = Inr files" by simp
    then have "set files = below rx dirPath (Dir n rest) recursive pattern"
      using "3.IH" b False d by blast
    then show ?thesis
      using False b by (simp add: below_Cons [OF nm] head_File)
  qed
next
  case (4 rx dirPath nm k rest recursive pattern)
  have nm: "nm \<notin> fst ` set rest" using "4.prems"(1) by auto
  have d: "distinct (map fst rest)" "list_all (\<lambda>e. wf_node (snd e)) rest"
    using "4.prems"(1,2) by auto
  from "4.prems"(3) have "scan_entries rx dirPath rest recursive pattern = Inr files" by simp
  then have "set files = below rx dirPath (Dir n rest) recursive pattern"
    using "4.IH" [OF d] by simp
  then show ?case
    by (simp add: below_Cons [OF nm] head_Special)
qed

section \<open>Batch uploads and enumeration: further lemmas\<close>

lemma FILE_SIZE_LIMIT_value: "FILE_SIZE_LIMIT = 41943040"
  by (simp add: FILE_SIZE_LIMIT_def)

lemma bulk_upload_result_shape:
  "\<exists>es. results (fst (bulk_upload_result fmt fs gw ps st)) = es
     \<and> list_all2 (expected_entry fmt fs) ps es
     \<and> total (fst (bulk_upload_result fmt fs gw ps st)) = length ps
     \<and> successful (fst (bulk_upload_result fmt fs gw ps st)) = count_status Success es
     \<and> failed (fst (bulk_upload_result fmt fs gw ps st)) = count_status Failed es
     \<and> skipped (fst (bulk_upload_result fmt fs gw ps st)) = count_status Skipped es
     \<and> uploadFile_calls (snd (bulk_upload_result fmt fs gw ps st))
         = uploadFile_calls st @ filter (uploadable fs) ps
     \<and> sent (snd (bulk_upload_result fmt fs gw ps st))
         = sent st @ map (\<lambda>p. PostUpload p (basename p)) (filter (uploadable fs) ps)"
  using bulk_upload_loop_shape [of fmt fs gw ps "empty_result (length ps)" st]
  unfolding bulk_upload_result_def by (simp add: empty_result_def)

lemma count_status_total:
  "count_status Success es + count_status Failed es + count_status Skipped es = length es"
proof (induction es)
  case (Cons e es)
  then show ?case by (cases "o_status e") auto
qed simp

lemma expected_entries_paths: "list_all2 (expected_entry fmt fs) ps es \<Longrightarrow> map o_path es = ps"
  by (induction rule: list_all2_induct) (auto simp: expected_entry_def)

lemma upload_directory_loop_bulk:
  "\<forall>p\<in>set ps. statSync fs p \<noteq> None \<Longrightarrow>
   upload_directory_loop fmt fs gw ps acc =
     (Inr (fst (bulk_upload_loop fmt fs gw ps acc)), snd (bulk_upload_loop fmt fs gw ps acc))"
proof (induction ps arbitrary: acc)
  case Nil
  show ?case by simp
next
  case (Cons p ps)
  then obtain nd where nd: "statSync fs p = Some nd" by auto
  have "\<forall>q\<in>set ps. statSync fs q \<noteq> None" using Cons.prems by simp
  from Cons.IH [OF this] show ?case
    by (simp add: nd bulk_upload_item_def)
qed

lemma upload_directory_loop_Inr:
  "upload_directory_loop fmt fs gw ps acc = (Inr res, st') \<Longrightarrow>
   (\<forall>p\<in>set ps. statSync fs p \<noteq> None)"
  by (induction ps arbitrary: acc) (auto split: option.splits)

lemma expected_entry_nth:
  assumes "list_all2 (expected_entry fmt fs) ps es" and "i < length ps"
  shows "expected_entry fmt fs (ps ! i) (es ! i)"
  using assms by (simp add: list_all2_nthD)

lemma expected_entry_missing:
  "expected_entry fmt fs p e \<Longrightarrow> \<not> existsSync fs p \<Longrightarrow> o_status e = Failed"
proof -
  assume a: "expected_entry fmt fs p e" "\<not> existsSync fs p"
  then have "e = \<lparr>o_path = p, o_status = Failed, o_message = ''File not found'', o_fileId = None\<rparr>"
    by (simp add: expected_entry_def existsSync_def)
  then have "o_status e = o_status \<lparr>o_path = p, o_status = Failed, o_message = ''File not found'', o_fileId = None\<rparr>"
    by (rule arg_cong)
  then show ?thesis by simp
qed

lemma count_status_ge:
  assumes "list_all2 (expected_entry fmt fs) ps es"
  shows "length (filter (\<lambda>p. \<not> existsSync fs p) ps) \<le> count_status Failed es"
  using assms
proof (induction rule: list_all2_induct)
  case Nil
  show ?case by simp
next
  case (Cons p ps e es)
  then show ?case
    using expected_entry_missing [of fmt fs p e] by auto
qed

lemma name_filter_Inl:
  "name_filter rx pat nm = Inl msg \<longleftrightarrow> (\<exists>s. pat = Some s \<and> s \<noteq> [] \<and> rx (regex_source s) = Inl msg)"
  by (auto simp: name_filter_def split: option.splits sum.splits)

lemma scan_entries_total:
  "\<forall>msg. name_filter rx pat nm0 \<noteq> Inl msg \<Longrightarrow> \<exists>files. scan_entries rx dir es r pat = Inr files"
proof (induction rx dir es r pat rule: scan_entries.induct)
  case (3 rx dirPath nm k rest recursive pattern)
  from "3.prems" have "\<forall>msg. name_filter rx pattern nm \<noteq> Inl msg"
    by (simp add: name_filter_Inl)
  then obtain b where b: "name_filter rx pattern nm = Inr b"
    by (cases "name_filter rx pattern nm") auto
  from "3.IH" b "3.prems" have "\<exists>files. scan_entries rx dirPath rest recursive pattern = Inr files"
    by (cases b) blast+
  with b show ?case by (cases b) auto
qed (auto split: sum.splits)

lemma scan_entries_Inl:
  "scan_entries rx dir es r pat = Inl e \<Longrightarrow>
   \<exists>s msg. pat = Some s \<and> s \<noteq> [] \<and> rx (regex_source s) = Inl msg \<and> e = SyntaxError msg"
proof (induction rx dir es r pat rule: scan_entries.induct)
  case (3 rx dirPath nm k rest recursive pattern)
  show ?case
  proof (cases "name_filter rx pattern nm")
    case (Inl msg)
    with "3.prems" have "e = SyntaxError msg" by simp
    with Inl show ?thesis by (simp add: name_filter_Inl)
  next
    case (Inr b)
    with "3.IH" "3.prems" show ?thesis by (cases b) (auto split: sum.splits)
  qed
qed (auto split: sum.splits if_splits)

lemma getFilesFromDirectory_set:
  assumes "wf_node fs" and "statSync fs dir = Some (Dir n es)"
    and "getFilesFromDirectory rx fs dir r pat = Inr files"
  shows "p \<in> set files \<longleftrightarrow>
     (\<exists>q m. q \<noteq> [] \<and> (r \<or> length q = 1) \<and> p = dir @ q \<and> statSync fs p = Some (File m)
        \<and> name_filter rx pat (last q) = Inr True)"
proof -
  have sc: "scan_entries rx dir es r pat = Inr files"
    using assms(2,3) by (simp add: getFilesFromDirectory_def)
  have "wf_node (Dir n es)" using wf_statSync [OF assms(1,2)] .
  then have "set files = below rx dir (Dir n es) r pat"
    using scan_entries_set [OF _ _ sc] by simp
  then show ?thesis
    using assms(2) by (auto simp: below_def statSync_append)
qed

lemma note_is_no_summary: "no_files_note params \<noteq> formatBulkResultAsMarkdown res"
  by (simp add: no_files_note_def formatBulkResultAsMarkdown_def join_lines_def)

lemma demo_pattern_tests:
  "regex_source ''*.mp4'' = ''.*.mp4''"
  "pattern_test ''*.mp4'' ''clip.MP4'' = Some True"
  "pattern_test ''*.mp4'' ''clip.mp4x'' = Some True"
  "pattern_test ''*.mp4'' ''big.mp4'' = Some True"
  "pattern_test ''*.mp4'' ''notes.txt'' = Some False"
  "pattern_test ''*.mp4'' ''b.mp4'' = Some True"
  by code_simp+

lemma demo_fs_wf: "wf_node demo_fs"
  by (simp add: demo_fs_def demo_videos_def)

lemma demo_stat:
  "statSync demo_fs [''videos''] = Some (Dir 4096 demo_videos)"
  "statSync demo_fs [''empty''] = Some (Dir 4096 [])"
  "statSync demo_fs [''missing.mp4''] = None"
  "statSync demo_fs [''videos'', ''clip.MP4''] = Some (File 41943040)"
  "statSync demo_fs [''videos'', ''big.mp4''] = Some (File 41943041)"
  "statSync demo_fs [''videos'', ''notes.txt''] = Some (File 5)"
  "statSync demo_fs [''videos'', ''old'', ''b.mp4''] = Some (File 7)"
  by (simp_all add: demo_fs_def demo_videos_def)

lemma demo_batch_nth:
  "length demo_batch = 3"
  "demo_batch ! 0 = [''missing.mp4'']"
  "demo_batch ! 1 = [''videos'', ''big.mp4'']"
  "demo_batch ! Suc 0 = [''videos'', ''big.mp4'']"
  "demo_batch ! 2 = [''videos'', ''clip.MP4'']"
  by (simp_all add: demo_batch_def)

lemma demo_exists:
  "\<not> existsSync demo_fs [''missing.mp4'']"
  by (simp add: existsSync_def demo_stat)

lemma name_filter_fragment:
  assumes "implements_fragment rx" and "pattern_test pat nm = Some b" and "pat \<noteq> []"
  shows "name_filter rx (Some pat) nm = Inr b"
proof -
  from assms(2) obtain r where r: "parse_regex (regex_source pat) = Some r" "b = regex_test r nm"
    by (auto simp: pattern_test_def)
  from assms(1) r(1) have "rx (regex_source pat) = Inr (regex_test r)"
    by (simp add: implements_fragment_def)
  with r(2) assms(3) show ?thesis by (simp add: name_filter_def)
qed

lemma sample_engine_fragment: "implements_fragment sample_engine"
  by (simp add: implements_fragment_def sample_engine_def)

lemma demo_scan_all:
  "getFilesFromDirectory rx demo_fs [''videos''] False None = Inr demo_listing"
  by (simp add: getFilesFromDirectory_def demo_stat demo_videos_def name_filter_def demo_listing_def)

section \<open>Batch uploads, enumeration and the client: results\<close>

text \<open>
  The bookkeeping of both loops. The summary of a bulk upload has
  \<open>total = successful + failed + skipped\<close>, \<open>total\<close> equal to the number of candidate paths, one
  outcome per candidate, and the outcomes in the order of the candidates; it is the summary
  the tool renders. The loop of a directory upload reaches its summary exactly when every
  enumerated path can be read by \<open>stat\<close> when the loop runs, and that summary satisfies the
  same equations over the enumerated files.
\<close>

lemma batch_bookkeeping:
  "total (fst (bulk_upload_result fmt fs gw paths st))
     = successful (fst (bulk_upload_result fmt fs gw paths st))
       + failed (fst (bulk_upload_result fmt fs gw paths st))
       + skipped (fst (bulk_upload_result fmt fs gw paths st))
 \<and> total (fst (bulk_upload_result fmt fs gw paths st)) = length paths
 \<and> length (results (fst (bulk_upload_result fmt fs gw paths st))) = length paths
 \<and> map o_path (results (fst (bulk_upload_result fmt fs gw paths st))) = paths
 \<and> iagon_bulk_upload fmt fs gw paths st =
      (\<lparr>isError = False,
        text_of = formatBulkResultAsMarkdown (fst (bulk_upload_result fmt fs gw paths st))\<rparr>,
       snd (bulk_upload_result fmt fs gw paths st))
 \<and> ((\<exists>res st'. upload_directory_loop fmt fs_loop gw files (empty_result (length files), st) = (Inr res, st'))
      \<longleftrightarrow> (\<forall>p\<in>set files. statSync fs_loop p \<noteq> None))
 \<and> (statSync fs dir = Some (Dir n es)
      \<and> getFilesFromDirectory rx fs dir r pat = Inr files \<and> files \<noteq> []
      \<and> (\<forall>p\<in>set files. statSync fs_loop p \<noteq> None)
    \<longrightarrow> (\<exists>res st'.
          upload_directory_loop fmt fs_loop gw files (empty_result (length files), st) = (Inr res, st')
        \<and> iagon_upload_directory fmt rx fs fs_loop gw
             \<lparr>local_directory = dir, include_pattern = pat, recursive_flag = r\<rparr> st
            = (\<lparr>isError = False, text_of = formatBulkResultAsMarkdown res\<rparr>, st')
        \<and> total res = successful res + failed res + skipped res
        \<and> total res = length files
        \<and> length (results res) = length files
        \<and> map o_path (results res) = files))"
proof -
  have inv: "total (fst (bulk_upload_result fmt f gw ps st))
     = successful (fst (bulk_upload_result fmt f gw ps st))
       + failed (fst (bulk_upload_result fmt f gw ps st))
       + skipped (fst (bulk_upload_result fmt f gw ps st))
   \<and> total (fst (bulk_upload_result fmt f gw ps st)) = length ps
   \<and> length (results (fst (bulk_upload_result fmt f gw ps st))) = length ps
   \<and> map o_path (results (fst (bulk_upload_result fmt f gw ps st))) = ps" for ps f
  proof -
    let ?R = "bulk_upload_result fmt f gw ps st"
    from bulk_upload_result_shape [of fmt f gw ps st]
    have all2: "list_all2 (expected_entry fmt f) ps (results (fst ?R))"
      and c: "total (fst ?R) = length ps"
        "successful (fst ?R) = count_status Success (results (fst ?R))"
        "failed (fst ?R) = count_status Failed (results (fst ?R))"
        "skipped (fst ?R) = count_status Skipped (results (fst ?R))"
      by auto
    have len: "length (results (fst ?R)) = length ps"
      using all2 by (simp add: list_all2_lengthD)
    show ?thesis
      using c len count_status_total [of "results (fst ?R)"] expected_entries_paths [OF all2]
      by simp
  qed
  have bulk: "iagon_bulk_upload fmt fs gw paths st =
      (\<lparr>isError = False,
        text_of = formatBulkResultAsMarkdown (fst (bulk_upload_result fmt fs gw paths st))\<rparr>,
       snd (bulk_upload_result fmt fs gw paths st))"
    by (simp add: iagon_bulk_upload_def split: prod.splits)
  let ?R = "bulk_upload_result fmt fs_loop gw files st"
  have l: "upload_directory_loop fmt fs_loop gw files (empty_result (length files), st) = (Inr (fst ?R), snd ?R)"
    if "\<forall>p\<in>set files. statSync fs_loop p \<noteq> None"
    using upload_directory_loop_bulk [OF that] by (simp add: bulk_upload_result_def)
  have iff: "(\<exists>res st'. upload_directory_loop fmt fs_loop gw files (empty_result (length files), st) = (Inr res, st'))
      \<longleftrightarrow> (\<forall>p\<in>set files. statSync fs_loop p \<noteq> None)"
    using l upload_directory_loop_Inr by blast
  have dir: "\<exists>res st'.
          upload_directory_loop fmt fs_loop gw files (empty_result (length files), st) = (Inr res, st')
        \<and> iagon_upload_directory fmt rx fs fs_loop gw
             \<lparr>local_directory = dir, include_pattern = pat, recursive_flag = r\<rparr> st
            = (\<lparr>isError = False, text_of = formatBulkResultAsMarkdown res\<rparr>, st')
        \<and> total res = successful res + failed res + skipped res
        \<and> total res = length files
        \<and> length (results res) = length files
        \<and> map o_path (results res) = files"
    if d: "statSync fs dir = Some (Dir n es)"
      and g: "getFilesFromDirectory rx fs dir r pat = Inr files" and ne: "files \<noteq> []"
      and ex: "\<forall>p\<in>set files. statSync fs_loop p \<noteq> None"
  proof -
    have h: "iagon_upload_directory fmt rx fs fs_loop gw
             \<lparr>local_directory = dir, include_pattern = pat, recursive_flag = r\<rparr> st
            = (\<lparr>isError = False, text_of = formatBulkResultAsMarkdown (fst ?R)\<rparr>, snd ?R)"
      using d g ne l [OF ex] by (simp add: iagon_upload_directory_def)
    from l [OF ex] h inv [of fs_loop files] show ?thesis by blast
  qed
  from inv [of fs paths] bulk iff dir show ?thesis by blast
qed

text \<open>In a tree with distinct names that nothing changes, every enumerated path can be read.\<close>

lemma enumerated_files_exist:
  assumes "wf_node fs" and "statSync fs dir = Some (Dir n es)"
    and "getFilesFromDirectory rx fs dir r pat = Inr files"
  shows "\<forall>p\<in>set files. statSync fs p \<noteq> None"
  using getFilesFromDirectory_set [OF assms] by auto

text \<open>
  Claim C1, evaluated on the code. The directory \<open>/videos\<close> is enumerated as four files;
  before the loop reaches it, the second one, \<open>clip.mp4x\<close>, is removed. The loop uploads the
  first file, then \<open>statSync\<close> throws for the second: the handler answers with the error text
  alone. No summary is returned although one file has been uploaded, and the two later
  candidates get no outcome. The loop of the bulk upload, given the same four paths on the same
  tree, records \<open>Failed\<close> for the missing one and goes on to the end.
\<close>

theorem directory_upload_aborts_on_stat_failure:
  "getFilesFromDirectory sample_engine demo_fs [''videos''] False None
     = Inr [[''videos'', ''clip.MP4''], [''videos'', ''clip.mp4x''], [''videos'', ''big.mp4''],
            [''videos'', ''notes.txt'']]
 \<and> iagon_upload_directory demo_fmt sample_engine demo_fs demo_fs_later (demo_gateway None)
      \<lparr>local_directory = [''videos''], include_pattern = None, recursive_flag = False\<rparr> no_effects
     = (\<lparr>isError = True,
         text_of = ''Error: ENOENT: no such file or directory, stat '' @ [CHR 0x27]
                   @ ''/videos/clip.mp4x'' @ [CHR 0x27]\<rparr>,
        \<lparr>sent = [PostUpload [''videos'', ''clip.MP4''] ''clip.MP4''],
          uploadFile_calls = [[''videos'', ''clip.MP4'']]\<rparr>)
 \<and> map o_status (results (fst (bulk_upload_result demo_fmt demo_fs_later (demo_gateway None)
        demo_listing no_effects)))
     = [Success, Failed, Skipped, Success]
 \<and> total (fst (bulk_upload_result demo_fmt demo_fs_later (demo_gateway None) demo_listing no_effects)) = 4"
proof -
  have g: "getFilesFromDirectory sample_engine demo_fs [''videos''] False None = Inr demo_listing"
    by (rule demo_scan_all)
  have s: "statSync demo_fs_later [''videos'', ''clip.MP4''] = Some (File 41943040)"
    "statSync demo_fs_later [''videos'', ''clip.mp4x''] = None"
    "statSync demo_fs_later [''videos'', ''big.mp4''] = Some (File 41943041)"
    "statSync demo_fs_later [''videos'', ''notes.txt''] = Some (File 5)"
    by (simp_all add: demo_fs_later_def demo_videos_later_def)
  have u: "uploadFile demo_fmt demo_fs_later (demo_gateway None) [''videos'', ''clip.MP4''] None st
      = (\<lparr>success = True, fileId = Some ''id1'', fileName = ''clip.MP4'', fileSize = 41943040,
           message = ''Successfully uploaded clip.MP4 ('' @ demo_fmt 41943040 @ '')''\<rparr>,
         st\<lparr>uploadFile_calls := uploadFile_calls st @ [[''videos'', ''clip.MP4'']],
            sent := sent st @ [PostUpload [''videos'', ''clip.MP4''] ''clip.MP4'']\<rparr>)" for st
    by (simp add: uploadFile_def s FILE_SIZE_LIMIT_def basename_def demo_gateway_def Let_def)
  have u2: "uploadFile demo_fmt demo_fs_later (demo_gateway None) [''videos'', ''notes.txt''] None st
      = (\<lparr>success = True, fileId = Some ''id1'', fileName = ''notes.txt'', fileSize = 5,
           message = ''Successfully uploaded notes.txt ('' @ demo_fmt 5 @ '')''\<rparr>,
         st\<lparr>uploadFile_calls := uploadFile_calls st @ [[''videos'', ''notes.txt'']],
            sent := sent st @ [PostUpload [''videos'', ''notes.txt''] ''notes.txt'']\<rparr>)" for st
    by (simp add: uploadFile_def s FILE_SIZE_LIMIT_def basename_def demo_gateway_def Let_def)
  have l: "upload_directory_loop demo_fmt demo_fs_later (demo_gateway None) demo_listing
        (empty_result (length demo_listing), no_effects)
      = (Inl (ENOENT [''videos'', ''clip.mp4x'']),
         \<lparr>sent = [PostUpload [''videos'', ''clip.MP4''] ''clip.MP4''],
           uploadFile_calls = [[''videos'', ''clip.MP4'']]\<rparr>)"
    by (simp add: demo_listing_def s check_and_upload_def u FILE_SIZE_LIMIT_def empty_result_def
        no_effects_def)
  have h: "iagon_upload_directory demo_fmt sample_engine demo_fs demo_fs_later (demo_gateway None)
      \<lparr>local_directory = [''videos''], include_pattern = None, recursive_flag = False\<rparr> no_effects
     = (\<lparr>isError = True,
         text_of = ''Error: ENOENT: no such file or directory, stat '' @ [CHR 0x27]
                   @ ''/videos/clip.mp4x'' @ [CHR 0x27]\<rparr>,
        \<lparr>sent = [PostUpload [''videos'', ''clip.MP4''] ''clip.MP4''],
          uploadFile_calls = [[''videos'', ''clip.MP4'']]\<rparr>)"
    using g l demo_stat(1)
    by (simp add: iagon_upload_directory_def path_string_def) (simp add: demo_listing_def)
  have b: "map o_status (results (fst (bulk_upload_result demo_fmt demo_fs_later (demo_gateway None)
        demo_listing no_effects))) = [Success, Failed, Skipped, Success]
    \<and> total (fst (bulk_upload_result demo_fmt demo_fs_later (demo_gateway None) demo_listing no_effects)) = 4"
    by (simp add: bulk_upload_result_def demo_listing_def bulk_upload_item_def s check_and_upload_def
        u u2 FILE_SIZE_LIMIT_def empty_result_def)
  from g h b show ?thesis by (simp add: demo_listing_def)
qed

text \<open>
  Claim C2, evaluated on the code. The pattern \<open>*.mp4\<close> becomes the source \<open>.*.mp4\<close> of an
  expression that is not anchored: it accepts \<open>clip.MP4\<close>, and it also accepts \<open>clip.mp4x\<close>,
  which a shell glob rejects. With any engine that does on this source what the language
  says, the scan of \<open>/videos\<close> returns both.
\<close>

theorem pattern_accepts_longer_extension:
  "regex_source ''*.mp4'' = ''.*.mp4''
 \<and> pattern_test ''*.mp4'' ''clip.MP4'' = Some True
 \<and> pattern_test ''*.mp4'' ''clip.mp4x'' = Some True
 \<and> (implements_fragment rx \<longrightarrow>
      name_filter rx (Some ''*.mp4'') ''clip.MP4'' = Inr True
    \<and> name_filter rx (Some ''*.mp4'') ''clip.mp4x'' = Inr True
    \<and> getFilesFromDirectory rx demo_fs [''videos''] False (Some ''*.mp4'')
        = Inr [[''videos'', ''clip.MP4''], [''videos'', ''clip.mp4x''], [''videos'', ''big.mp4'']])"
proof -
  have f: "name_filter rx (Some ''*.mp4'') ''clip.MP4'' = Inr True"
      "name_filter rx (Some ''*.mp4'') ''clip.mp4x'' = Inr True"
      "name_filter rx (Some ''*.mp4'') ''big.mp4'' = Inr True"
      "name_filter rx (Some ''*.mp4'') ''notes.txt'' = Inr False"
    if "implements_fragment rx"
    using that by (simp_all add: name_filter_fragment demo_pattern_tests)
  have "getFilesFromDirectory rx demo_fs [''videos''] False (Some ''*.mp4'')
        = Inr [[''videos'', ''clip.MP4''], [''videos'', ''clip.mp4x''], [''videos'', ''big.mp4'']]"
    if "implements_fragment rx"
    using f [OF that] by (simp add: getFilesFromDirectory_def demo_stat demo_videos_def)
  with f show ?thesis by (simp add: demo_pattern_tests)
qed

text \<open>The example engine does what the language says on this source.\<close>

theorem pattern_accepts_longer_extension_witness:
  "implements_fragment sample_engine
 \<and> name_filter sample_engine (Some ''*.mp4'') ''clip.mp4x'' = Inr True
 \<and> getFilesFromDirectory sample_engine demo_fs [''videos''] False (Some ''*.mp4'')
     = Inr [[''videos'', ''clip.MP4''], [''videos'', ''clip.mp4x''], [''videos'', ''big.mp4'']]"
  using pattern_accepts_longer_extension [of sample_engine] sample_engine_fragment by simp

text \<open>
  Claim C3. The limit is 41,943,040 bytes, compared with the exact size. In both batch loops a
  candidate of at most that size is not skipped: the client's upload is called with it and
  the upload request is sent. A candidate of a larger size gets the outcome \<open>Skipped\<close> with the
  message \<open>Exceeds 40MB limit (\<close>formatted size\<open>)\<close>, and neither the upload function nor the
  gateway sees its path.
\<close>

theorem size_boundary:
  "FILE_SIZE_LIMIT = 41943040
 \<and> (\<forall>i<length paths. \<forall>stats. statSync fs (paths ! i) = Some stats \<longrightarrow>
       (stat_size stats \<le> 41943040 \<longrightarrow>
          o_status (results (fst (bulk_upload_result fmt fs gw paths st)) ! i) \<noteq> Skipped
          \<and> paths ! i \<in> set (uploadFile_calls (snd (bulk_upload_result fmt fs gw paths st)))
          \<and> PostUpload (paths ! i) (basename (paths ! i))
               \<in> set (sent (snd (bulk_upload_result fmt fs gw paths st))))
     \<and> (stat_size stats > 41943040 \<longrightarrow>
          results (fst (bulk_upload_result fmt fs gw paths st)) ! i
            = \<lparr>o_path = paths ! i, o_status = Skipped,
                o_message = ''Exceeds 40MB limit ('' @ fmt (stat_size stats) @ '')'', o_fileId = None\<rparr>
          \<and> (paths ! i \<notin> set (uploadFile_calls st)
               \<longrightarrow> paths ! i \<notin> set (uploadFile_calls (snd (bulk_upload_result fmt fs gw paths st))))
          \<and> (\<forall>nm. PostUpload (paths ! i) nm \<notin> set (sent st)
               \<longrightarrow> PostUpload (paths ! i) nm \<notin> set (sent (snd (bulk_upload_result fmt fs gw paths st))))))
 \<and> (upload_directory_loop fmt fs gw paths (empty_result (length paths), st) = (Inr res, st') \<longrightarrow>
      (\<forall>i<length paths. \<forall>stats. statSync fs (paths ! i) = Some stats \<longrightarrow>
         (stat_size stats \<le> 41943040 \<longrightarrow>
            o_status (results res ! i) \<noteq> Skipped \<and> paths ! i \<in> set (uploadFile_calls st')
            \<and> PostUpload (paths ! i) (basename (paths ! i)) \<in> set (sent st'))
       \<and> (stat_size stats > 41943040 \<longrightarrow>
            results res ! i
              = \<lparr>o_path = paths ! i, o_status = Skipped,
                  o_message = ''Exceeds 40MB limit ('' @ fmt (stat_size stats) @ '')'', o_fileId = None\<rparr>
            \<and> (paths ! i \<notin> set (uploadFile_calls st) \<longrightarrow> paths ! i \<notin> set (uploadFile_calls st'))
            \<and> (\<forall>nm. PostUpload (paths ! i) nm \<notin> set (sent st) \<longrightarrow> PostUpload (paths ! i) nm \<notin> set (sent st')))))"
proof -
  let ?R = "bulk_upload_result fmt fs gw paths st"
  from bulk_upload_result_shape [of fmt fs gw paths st]
  have all2: "list_all2 (expected_entry fmt fs) paths (results (fst ?R))"
    and calls: "uploadFile_calls (snd ?R) = uploadFile_calls st @ filter (uploadable fs) paths"
    and sent: "sent (snd ?R) = sent st @ map (\<lambda>p. PostUpload p (basename p)) (filter (uploadable fs) paths)"
    by auto
  have bulk: "(stat_size stats \<le> 41943040 \<longrightarrow>
          o_status (results (fst ?R) ! i) \<noteq> Skipped \<and> paths ! i \<in> set (uploadFile_calls (snd ?R))
          \<and> PostUpload (paths ! i) (basename (paths ! i)) \<in> set (sent (snd ?R)))
     \<and> (stat_size stats > 41943040 \<longrightarrow>
          results (fst ?R) ! i
            = \<lparr>o_path = paths ! i, o_status = Skipped,
                o_message = ''Exceeds 40MB limit ('' @ fmt (stat_size stats) @ '')'', o_fileId = None\<rparr>
          \<and> (paths ! i \<notin> set (uploadFile_calls st) \<longrightarrow> paths ! i \<notin> set (uploadFile_calls (snd ?R)))
          \<and> (\<forall>nm. PostUpload (paths ! i) nm \<notin> set (sent st) \<longrightarrow> PostUpload (paths ! i) nm \<notin> set (sent (snd ?R))))"
    if i: "i < length paths" and s: "statSync fs (paths ! i) = Some stats" for i stats
  proof -
    have e: "expected_entry fmt fs (paths ! i) (results (fst ?R) ! i)"
      using expected_entry_nth [OF all2 i] .
    have u: "uploadable fs (paths ! i) \<longleftrightarrow> stat_size stats \<le> 41943040"
      using s by (simp add: uploadable_def FILE_SIZE_LIMIT_value)
    have m: "paths ! i \<in> set paths" using i by simp
    show ?thesis
      using e s u m unfolding calls sent
      by (auto simp: expected_entry_def FILE_SIZE_LIMIT_value)
  qed
  have dir: "\<forall>i<length paths. \<forall>stats. statSync fs (paths ! i) = Some stats \<longrightarrow>
         (stat_size stats \<le> 41943040 \<longrightarrow>
            o_status (results res ! i) \<noteq> Skipped \<and> paths ! i \<in> set (uploadFile_calls st')
            \<and> PostUpload (paths ! i) (basename (paths ! i)) \<in> set (sent st'))
       \<and> (stat_size stats > 41943040 \<longrightarrow>
            results res ! i
              = \<lparr>o_path = paths ! i, o_status = Skipped,
                  o_message = ''Exceeds 40MB limit ('' @ fmt (stat_size stats) @ '')'', o_fileId = None\<rparr>
            \<and> (paths ! i \<notin> set (uploadFile_calls st) \<longrightarrow> paths ! i \<notin> set (uploadFile_calls st'))
            \<and> (\<forall>nm. PostUpload (paths ! i) nm \<notin> set (sent st) \<longrightarrow> PostUpload (paths ! i) nm \<notin> set (sent st')))"
    if d: "upload_directory_loop fmt fs gw paths (empty_result (length paths), st) = (Inr res, st')"
  proof -
    have ex: "\<forall>p\<in>set paths. statSync fs p \<noteq> None"
      using upload_directory_loop_Inr [OF d] .
    have "res = fst ?R" "st' = snd ?R"
      using d upload_directory_loop_bulk [OF ex, of fmt gw "(empty_result (length paths), st)"]
      by (simp_all add: bulk_upload_result_def)
    with bulk show ?thesis by blast
  qed
  from bulk dir show ?thesis
    by (simp add: FILE_SIZE_LIMIT_value)
qed

text \<open>A file of 41,943,040 bytes is uploaded, one of 41,943,041 bytes is skipped.\<close>

theorem size_boundary_witness:
  "o_status (results (fst (bulk_upload_result demo_fmt demo_fs (demo_gateway None) demo_batch no_effects)) ! 2) \<noteq> Skipped
 \<and> [''videos'', ''clip.MP4'']
     \<in> set (uploadFile_calls (snd (bulk_upload_result demo_fmt demo_fs (demo_gateway None) demo_batch no_effects)))
 \<and> PostUpload [''videos'', ''clip.MP4''] ''clip.MP4''
     \<in> set (sent (snd (bulk_upload_result demo_fmt demo_fs (demo_gateway None) demo_batch no_effects)))
 \<and> results (fst (bulk_upload_result demo_fmt demo_fs (demo_gateway None) demo_batch no_effects)) ! 1
     = \<lparr>o_path = [''videos'', ''big.mp4''], o_status = Skipped,
         o_message = ''Exceeds 40MB limit ('' @ demo_fmt 41943041 @ '')'', o_fileId = None\<rparr>
 \<and> [''videos'', ''big.mp4'']
     \<notin> set (uploadFile_calls (snd (bulk_upload_result demo_fmt demo_fs (demo_gateway None) demo_batch no_effects)))
 \<and> (\<exists>res st'. upload_directory_loop demo_fmt demo_fs (demo_gateway None) (tl demo_batch)
        (empty_result (length (tl demo_batch)), no_effects) = (Inr res, st')
      \<and> o_status (results res ! 0) = Skipped \<and> o_status (results res ! 1) \<noteq> Skipped)"
proof -
  let ?R = "bulk_upload_result demo_fmt demo_fs (demo_gateway None) demo_batch no_effects"
  note b = size_boundary [where fs = demo_fs and paths = demo_batch and fmt = demo_fmt
      and gw = "demo_gateway None" and st = no_effects, THEN conjunct2, THEN conjunct1, rule_format]
  have 1: "o_status (results (fst ?R) ! 2) \<noteq> Skipped \<and> [''videos'', ''clip.MP4''] \<in> set (uploadFile_calls (snd ?R))
      \<and> PostUpload [''videos'', ''clip.MP4''] ''clip.MP4'' \<in> set (sent (snd ?R))"
    using b [of 2 "File 41943040"] by (simp add: demo_batch_nth demo_stat basename_def)
  have 2: "results (fst ?R) ! 1
     = \<lparr>o_path = [''videos'', ''big.mp4''], o_status = Skipped,
         o_message = ''Exceeds 40MB limit ('' @ demo_fmt 41943041 @ '')'', o_fileId = None\<rparr>
    \<and> [''videos'', ''big.mp4''] \<notin> set (uploadFile_calls (snd ?R))"
    using b [of 1 "File 41943041"] by (simp add: demo_batch_nth demo_stat no_effects_def)
  let ?T = "bulk_upload_result demo_fmt demo_fs (demo_gateway None) (tl demo_batch) no_effects"
  have l: "upload_directory_loop demo_fmt demo_fs (demo_gateway None) (tl demo_batch)
        (empty_result (length (tl demo_batch)), no_effects) = (Inr (fst ?T), snd ?T)"
    using upload_directory_loop_bulk [of "tl demo_batch" demo_fs demo_fmt "demo_gateway None"
        "(empty_result (length (tl demo_batch)), no_effects)"]
    by (simp add: demo_batch_def demo_stat bulk_upload_result_def)
  note d = size_boundary [where fs = demo_fs and paths = "tl demo_batch" and fmt = demo_fmt
      and gw = "demo_gateway None" and st = no_effects and res = "fst ?T" and st' = "snd ?T",
      THEN conjunct2, THEN conjunct2, rule_format, OF l]
  have 3: "o_status (results (fst ?T) ! 0) = Skipped"
    using d [of 0 "File 41943041"] by (simp add: demo_batch_def demo_stat)
  have 4: "o_status (results (fst ?T) ! 1) \<noteq> Skipped"
    using d [of 1 "File 41943040"] by (simp add: demo_batch_def demo_stat)
  from 1 2 l 3 4 show ?thesis by blast
qed

text \<open>
  Claim C4. In a bulk upload a path for which \<open>existsSync\<close> is false gets the outcome
  \<open>Failed\<close> with the message \<open>File not found\<close>; the step adds one to \<open>failed\<close>, appends that
  outcome and leaves the effects as they were; neither the upload function nor the gateway is
  called with that path; the final \<open>failed\<close> counter is at least the number of missing
  candidates.
\<close>

theorem missing_path_fails:
  "(\<not> existsSync fs p \<longrightarrow>
      bulk_upload_item fmt fs gw p (res, st) =
        (res\<lparr>failed := failed res + 1,
             results := results res @
               [\<lparr>o_path = p, o_status = Failed, o_message = ''File not found'', o_fileId = None\<rparr>]\<rparr>,
         st))
 \<and> (\<forall>i<length paths. \<not> existsSync fs (paths ! i) \<longrightarrow>
       results (fst (bulk_upload_result fmt fs gw paths st)) ! i
         = \<lparr>o_path = paths ! i, o_status = Failed, o_message = ''File not found'', o_fileId = None\<rparr>
     \<and> (paths ! i \<notin> set (uploadFile_calls st)
          \<longrightarrow> paths ! i \<notin> set (uploadFile_calls (snd (bulk_upload_result fmt fs gw paths st))))
     \<and> (\<forall>nm. PostUpload (paths ! i) nm \<notin> set (sent st)
          \<longrightarrow> PostUpload (paths ! i) nm \<notin> set (sent (snd (bulk_upload_result fmt fs gw paths st)))))
 \<and> length (filter (\<lambda>q. \<not> existsSync fs q) paths) \<le> failed (fst (bulk_upload_result fmt fs gw paths st))"
proof -
  let ?R = "bulk_upload_result fmt fs gw paths st"
  from bulk_upload_result_shape [of fmt fs gw paths st]
  have all2: "list_all2 (expected_entry fmt fs) paths (results (fst ?R))"
    and failed: "failed (fst ?R) = count_status Failed (results (fst ?R))"
    and calls: "uploadFile_calls (snd ?R) = uploadFile_calls st @ filter (uploadable fs) paths"
    and sent: "sent (snd ?R) = sent st @ map (\<lambda>p. PostUpload p (basename p)) (filter (uploadable fs) paths)"
    by auto
  have 1: "\<not> existsSync fs p \<longrightarrow>
      bulk_upload_item fmt fs gw p (res, st) =
        (res\<lparr>failed := failed res + 1,
             results := results res @
               [\<lparr>o_path = p, o_status = Failed, o_message = ''File not found'', o_fileId = None\<rparr>]\<rparr>,
         st)"
    by (simp add: existsSync_def bulk_upload_item_missing)
  have 2: "results (fst ?R) ! i
         = \<lparr>o_path = paths ! i, o_status = Failed, o_message = ''File not found'', o_fileId = None\<rparr>
     \<and> (paths ! i \<notin> set (uploadFile_calls st) \<longrightarrow> paths ! i \<notin> set (uploadFile_calls (snd ?R)))
     \<and> (\<forall>nm. PostUpload (paths ! i) nm \<notin> set (sent st)
          \<longrightarrow> PostUpload (paths ! i) nm \<notin> set (sent (snd ?R)))"
    if i: "i < length paths" and m: "\<not> existsSync fs (paths ! i)" for i
  proof -
    have n: "statSync fs (paths ! i) = None" using m by (simp add: existsSync_def)
    then have u: "\<not> uploadable fs (paths ! i)" by (simp add: uploadable_def)
    have "results (fst ?R) ! i
         = \<lparr>o_path = paths ! i, o_status = Failed, o_message = ''File not found'', o_fileId = None\<rparr>"
      using expected_entry_nth [OF all2 i] n by (simp add: expected_entry_def)
    moreover have "paths ! i \<notin> set (uploadFile_calls st) \<longrightarrow> paths ! i \<notin> set (uploadFile_calls (snd ?R))"
      unfolding calls using u by auto
    moreover have "\<forall>nm. PostUpload (paths ! i) nm \<notin> set (sent st)
          \<longrightarrow> PostUpload (paths ! i) nm \<notin> set (sent (snd ?R))"
      unfolding sent using u by auto
    ultimately show ?thesis by blast
  qed
  have 3: "length (filter (\<lambda>q. \<not> existsSync fs q) paths) \<le> failed (fst ?R)"
    unfolding failed using count_status_ge [OF all2] .
  from 1 2 3 show ?thesis by blast
qed

text \<open>The path \<open>/missing.mp4\<close> in a batch of three.\<close>

theorem missing_path_fails_witness:
  "results (fst (bulk_upload_result demo_fmt demo_fs (demo_gateway None) demo_batch no_effects)) ! 0
     = \<lparr>o_path = [''missing.mp4''], o_status = Failed, o_message = ''File not found'', o_fileId = None\<rparr>
 \<and> [''missing.mp4'']
     \<notin> set (uploadFile_calls (snd (bulk_upload_result demo_fmt demo_fs (demo_gateway None) demo_batch no_effects)))
 \<and> PostUpload [''missing.mp4''] ''missing.mp4''
     \<notin> set (sent (snd (bulk_upload_result demo_fmt demo_fs (demo_gateway None) demo_batch no_effects)))
 \<and> 1 \<le> failed (fst (bulk_upload_result demo_fmt demo_fs (demo_gateway None) demo_batch no_effects))
 \<and> bulk_upload_item demo_fmt demo_fs (demo_gateway None) [''missing.mp4''] (empty_result 1, no_effects)
     = (\<lparr>total = 1, successful = 0, failed = 1, skipped = 0,
         results = [\<lparr>o_path = [''missing.mp4''], o_status = Failed, o_message = ''File not found'',
                     o_fileId = None\<rparr>]\<rparr>, no_effects)"
proof -
  let ?R = "bulk_upload_result demo_fmt demo_fs (demo_gateway None) demo_batch no_effects"
  note t = missing_path_fails [where fs = demo_fs and paths = demo_batch and fmt = demo_fmt
      and gw = "demo_gateway None" and st = no_effects and p = "[''missing.mp4'']"
      and res = "empty_result 1"]
  note b = t [THEN conjunct2, THEN conjunct1, rule_format]
  have 1: "results (fst ?R) ! 0
       = \<lparr>o_path = [''missing.mp4''], o_status = Failed, o_message = ''File not found'', o_fileId = None\<rparr>
     \<and> [''missing.mp4''] \<notin> set (uploadFile_calls (snd ?R))
     \<and> PostUpload [''missing.mp4''] ''missing.mp4'' \<notin> set (sent (snd ?R))"
    using b [of 0] demo_exists by (simp add: demo_batch_nth no_effects_def)
  have "length (filter (\<lambda>q. \<not> existsSync demo_fs q) demo_batch) \<le> failed (fst ?R)"
    using t by blast
  moreover have "length (filter (\<lambda>q. \<not> existsSync demo_fs q) demo_batch) = 1"
    by (simp add: demo_batch_def existsSync_def demo_stat)
  ultimately have 2: "1 \<le> failed (fst ?R)" by simp
  have 3: "bulk_upload_item demo_fmt demo_fs (demo_gateway None) [''missing.mp4''] (empty_result 1, no_effects)
     = (\<lparr>total = 1, successful = 0, failed = 1, skipped = 0,
         results = [\<lparr>o_path = [''missing.mp4''], o_status = Failed, o_message = ''File not found'',
                     o_fileId = None\<rparr>]\<rparr>, no_effects)"
    using t [THEN conjunct1] demo_exists by (simp add: empty_result_def)
  from 1 2 3 show ?thesis by blast
qed

text \<open>
  Claim C6, amended. Whatever the pattern and the engine, when the enumeration of an existing
  directory is empty, the directory upload returns at once, with the effects unchanged (no
  loop, no client call, no request), and its answer is only the note \<open>No files found in\<close>
  directory, followed by the pattern when one was given. The note is not the rendering of any
  summary.
\<close>

theorem empty_enumeration_note:
  assumes "statSync fs (local_directory params) = Some (Dir n es)"
    and "getFilesFromDirectory rx fs (local_directory params) (recursive_flag params)
           (include_pattern params) = Inr []"
  shows "iagon_upload_directory fmt rx fs fs_loop gw params st
           = (\<lparr>isError = False, text_of = no_files_note params\<rparr>, st)
     \<and> (\<forall>res. no_files_note params \<noteq> formatBulkResultAsMarkdown res)"
  using assms by (simp add: iagon_upload_directory_def note_is_no_summary)

text \<open>
  The empty directory \<open>/empty\<close>, and the directory \<open>/videos\<close> scanned with the pattern
  \<open>*.mp[34]\<close> by an engine whose expression for it matches none of the names.
\<close>

theorem empty_enumeration_note_witness:
  "statSync demo_fs [''empty''] = Some (Dir 4096 [])
 \<and> getFilesFromDirectory sample_engine demo_fs [''empty''] True (Some ''*.mp[34]'') = Inr []
 \<and> iagon_upload_directory demo_fmt sample_engine demo_fs demo_fs (demo_gateway None)
      \<lparr>local_directory = [''empty''], include_pattern = Some ''*.mp[34]'', recursive_flag = True\<rparr> no_effects
     = (\<lparr>isError = False,
         text_of = ''No files found in /empty matching pattern '' @ [CHR 0x22] @ ''*.mp[34]'' @ [CHR 0x22]\<rparr>,
        no_effects)
 \<and> getFilesFromDirectory (\<lambda>src. Inr (\<lambda>nm. False)) demo_fs [''videos''] True (Some ''*.mp[34]'') = Inr []
 \<and> iagon_upload_directory demo_fmt (\<lambda>src. Inr (\<lambda>nm. False)) demo_fs demo_fs (demo_gateway None)
      \<lparr>local_directory = [''videos''], include_pattern = Some ''*.mp[34]'', recursive_flag = True\<rparr> no_effects
     = (\<lparr>isError = False,
         text_of = ''No files found in /videos matching pattern '' @ [CHR 0x22] @ ''*.mp[34]'' @ [CHR 0x22]\<rparr>,
        no_effects)"
proof -
  have g: "getFilesFromDirectory sample_engine demo_fs [''empty''] True (Some ''*.mp[34]'') = Inr []"
    by (simp add: getFilesFromDirectory_def demo_stat)
  have 1: "iagon_upload_directory demo_fmt sample_engine demo_fs demo_fs (demo_gateway None)
      \<lparr>local_directory = [''empty''], include_pattern = Some ''*.mp[34]'', recursive_flag = True\<rparr> no_effects
     = (\<lparr>isError = False,
         text_of = ''No files found in /empty matching pattern '' @ [CHR 0x22] @ ''*.mp[34]'' @ [CHR 0x22]\<rparr>,
        no_effects)"
    using empty_enumeration_note [where fs = demo_fs and rx = sample_engine and fs_loop = demo_fs
        and params = "\<lparr>local_directory = [''empty''], include_pattern = Some ''*.mp[34]'', recursive_flag = True\<rparr>"
        and n = 4096 and es = "[]" and fmt = demo_fmt and gw = "demo_gateway None" and st = no_effects]
      g demo_stat(2)
    by (simp add: no_files_note_def path_string_def)
  have h: "getFilesFromDirectory (\<lambda>src. Inr (\<lambda>nm. False)) demo_fs [''videos''] True (Some ''*.mp[34]'') = Inr []"
    by (simp add: getFilesFromDirectory_def demo_stat demo_videos_def name_filter_def)
  have 2: "iagon_upload_directory demo_fmt (\<lambda>src. Inr (\<lambda>nm. False)) demo_fs demo_fs (demo_gateway None)
      \<lparr>local_directory = [''videos''], include_pattern = Some ''*.mp[34]'', recursive_flag = True\<rparr> no_effects
     = (\<lparr>isError = False,
         text_of = ''No files found in /videos matching pattern '' @ [CHR 0x22] @ ''*.mp[34]'' @ [CHR 0x22]\<rparr>,
        no_effects)"
    using empty_enumeration_note [where fs = demo_fs and rx = "\<lambda>src. Inr (\<lambda>nm. False)" and fs_loop = demo_fs
        and params = "\<lparr>local_directory = [''videos''], include_pattern = Some ''*.mp[34]'', recursive_flag = True\<rparr>"
        and n = 4096 and es = demo_videos and fmt = demo_fmt and gw = "demo_gateway None" and st = no_effects]
      h demo_stat(1)
    by (simp add: no_files_note_def path_string_def)
  from demo_stat(2) g 1 h 2 show ?thesis by (intro conjI)
qed

text \<open>
  Claim C6 as stated fails: for the empty directory \<open>/empty\<close> the answer is the bare note,
  which differs from the rendering of the summary with \<open>total = 0\<close>.
\<close>

theorem empty_enumeration_counterexample:
  "text_of (fst (iagon_upload_directory demo_fmt sample_engine demo_fs demo_fs (demo_gateway None)
      \<lparr>local_directory = [''empty''], include_pattern = None, recursive_flag = False\<rparr> no_effects))
     = ''No files found in /empty''
 \<and> text_of (fst (iagon_upload_directory demo_fmt sample_engine demo_fs demo_fs (demo_gateway None)
      \<lparr>local_directory = [''empty''], include_pattern = None, recursive_flag = False\<rparr> no_effects))
     \<noteq> formatBulkResultAsMarkdown (empty_result 0)"
  by (simp add: iagon_upload_directory_def demo_fs_def getFilesFromDirectory_def no_files_note_def
      path_string_def formatBulkResultAsMarkdown_def join_lines_def)

text \<open>
  Claim C8. Over a file system whose directory names are distinct, for every pattern and
  every engine: a scan with \<open>recursive = false\<close> returns exactly the regular files directly
  inside the directory whose names pass the filter, and so no path from a nested
  subdirectory; a scan with \<open>recursive = true\<close> returns exactly the regular files at any
  depth below the directory whose names pass the filter. A scan fails only with the
  \<open>SyntaxError\<close> of \<open>new RegExp\<close> for the source made from the pattern; when there is no
  pattern, or \<open>new RegExp\<close> accepts the source, both scans return.
\<close>

theorem enumeration_depth:
  assumes "wf_node fs" and "statSync fs dir = Some (Dir n es)"
  shows "(\<forall>flat. getFilesFromDirectory rx fs dir False pat = Inr flat \<longrightarrow>
           (\<forall>p. p \<in> set flat \<longleftrightarrow>
              (\<exists>nm m. p = dir @ [nm] \<and> statSync fs p = Some (File m)
                 \<and> name_filter rx pat nm = Inr True)))
     \<and> (\<forall>deep. getFilesFromDirectory rx fs dir True pat = Inr deep \<longrightarrow>
           (\<forall>p. p \<in> set deep \<longleftrightarrow>
              (\<exists>q m. q \<noteq> [] \<and> p = dir @ q \<and> statSync fs p = Some (File m)
                 \<and> name_filter rx pat (last q) = Inr True)))
     \<and> (\<forall>r e. getFilesFromDirectory rx fs dir r pat = Inl e \<longrightarrow>
           (\<exists>s msg. pat = Some s \<and> s \<noteq> [] \<and> rx (regex_source s) = Inl msg \<and> e = SyntaxError msg))
     \<and> ((\<forall>s msg. pat = Some s \<longrightarrow> rx (regex_source s) \<noteq> Inl msg) \<longrightarrow>
           (\<exists>flat deep. getFilesFromDirectory rx fs dir False pat = Inr flat
                      \<and> getFilesFromDirectory rx fs dir True pat = Inr deep))"
proof -
  have one: "(\<exists>q m. q \<noteq> [] \<and> (False \<or> length q = 1) \<and> p = dir @ q \<and> statSync fs p = Some (File m)
        \<and> name_filter rx pat (last q) = Inr True)
     \<longleftrightarrow> (\<exists>nm m. p = dir @ [nm] \<and> statSync fs p = Some (File m) \<and> name_filter rx pat nm = Inr True)" for p
  proof
    assume "\<exists>q m. q \<noteq> [] \<and> (False \<or> length q = 1) \<and> p = dir @ q \<and> statSync fs p = Some (File m)
        \<and> name_filter rx pat (last q) = Inr True"
    then obtain q m where q: "length q = 1" "p = dir @ q" "statSync fs p = Some (File m)"
        "name_filter rx pat (last q) = Inr True"
      by blast
    from q(1) obtain nm where "q = [nm]" by (cases q) auto
    with q show "\<exists>nm m. p = dir @ [nm] \<and> statSync fs p = Some (File m) \<and> name_filter rx pat nm = Inr True"
      by auto
  next
    assume "\<exists>nm m. p = dir @ [nm] \<and> statSync fs p = Some (File m) \<and> name_filter rx pat nm = Inr True"
    then obtain nm m where "p = dir @ [nm]" "statSync fs p = Some (File m)" "name_filter rx pat nm = Inr True"
      by blast
    then show "\<exists>q m. q \<noteq> [] \<and> (False \<or> length q = 1) \<and> p = dir @ q \<and> statSync fs p = Some (File m)
        \<and> name_filter rx pat (last q) = Inr True"
      by (intro exI [of _ "[nm]"] exI [of _ m]) simp
  qed
  have f: "\<forall>p. p \<in> set flat \<longleftrightarrow>
          (\<exists>nm m. p = dir @ [nm] \<and> statSync fs p = Some (File m) \<and> name_filter rx pat nm = Inr True)"
    if "getFilesFromDirectory rx fs dir False pat = Inr flat" for flat
    using getFilesFromDirectory_set [OF assms that] one by simp
  have d: "\<forall>p. p \<in> set deep \<longleftrightarrow>
          (\<exists>q m. q \<noteq> [] \<and> p = dir @ q \<and> statSync fs p = Some (File m)
             \<and> name_filter rx pat (last q) = Inr True)"
    if "getFilesFromDirectory rx fs dir True pat = Inr deep" for deep
    using getFilesFromDirectory_set [OF assms that] by simp
  have e: "\<exists>s msg. pat = Some s \<and> s \<noteq> [] \<and> rx (regex_source s) = Inl msg \<and> e = SyntaxError msg"
    if "getFilesFromDirectory rx fs dir r pat = Inl e" for r e
    using that assms(2) scan_entries_Inl [of rx dir es r pat e]
    by (simp add: getFilesFromDirectory_def)
  have t: "\<exists>flat deep. getFilesFromDirectory rx fs dir False pat = Inr flat
                      \<and> getFilesFromDirectory rx fs dir True pat = Inr deep"
    if ok: "\<forall>s msg. pat = Some s \<longrightarrow> rx (regex_source s) \<noteq> Inl msg"
  proof -
    have "\<forall>msg. name_filter rx pat [] \<noteq> Inl msg"
      using ok by (simp add: name_filter_Inl)
    then have "\<exists>files. scan_entries rx dir es r pat = Inr files" for r
      by (rule scan_entries_total)
    then show ?thesis
      using assms(2) by (simp add: getFilesFromDirectory_def)
  qed
  from f d e t show ?thesis by blast
qed

text \<open>
  \<open>/videos/old/b.mp4\<close> matches \<open>*.mp4\<close>: it is absent from the flat scan of \<open>/videos\<close> and
  present in the recursive one.
\<close>

theorem enumeration_depth_witness:
  "wf_node demo_fs \<and> statSync demo_fs [''videos''] = Some (Dir 4096 demo_videos)
 \<and> (\<exists>flat deep.
      getFilesFromDirectory sample_engine demo_fs [''videos''] False (Some ''*.mp4'') = Inr flat
    \<and> getFilesFromDirectory sample_engine demo_fs [''videos''] True (Some ''*.mp4'') = Inr deep
    \<and> [''videos'', ''clip.MP4''] \<in> set flat
    \<and> [''videos'', ''old'', ''b.mp4''] \<notin> set flat
    \<and> [''videos'', ''clip.MP4''] \<in> set deep
    \<and> [''videos'', ''old'', ''b.mp4''] \<in> set deep)"
proof -
  note t = enumeration_depth [OF demo_fs_wf demo_stat(1), where rx = sample_engine and pat = "Some ''*.mp4''"]
  have ok: "\<forall>s msg. Some ''*.mp4'' = Some s \<longrightarrow> sample_engine (regex_source s) \<noteq> Inl msg"
    by (simp add: sample_engine_def demo_pattern_tests(1) syntax_character_def)
  from t [THEN conjunct2, THEN conjunct2, THEN conjunct2, THEN mp, OF ok]
  obtain flat deep where fd:
      "getFilesFromDirectory sample_engine demo_fs [''videos''] False (Some ''*.mp4'') = Inr flat
     \<and> getFilesFromDirectory sample_engine demo_fs [''videos''] True (Some ''*.mp4'') = Inr deep"
    by (elim exE) (rule that)
  note flat = t [THEN conjunct1, rule_format, OF fd [THEN conjunct1]]
  note deep = t [THEN conjunct2, THEN conjunct1, rule_format, OF fd [THEN conjunct2]]
  have pt: "name_filter sample_engine (Some ''*.mp4'') ''clip.MP4'' = Inr True"
           "name_filter sample_engine (Some ''*.mp4'') ''b.mp4'' = Inr True"
    by (simp_all add: name_filter_fragment [OF sample_engine_fragment] demo_pattern_tests)
  have 1: "[''videos'', ''clip.MP4''] \<in> set flat"
    unfolding flat using pt(1) demo_stat(4)
    by (intro exI [of _ "''clip.MP4''"] exI [of _ 41943040]) simp
  have 2: "[''videos'', ''old'', ''b.mp4''] \<notin> set flat"
    unfolding flat by simp
  have 3: "[''videos'', ''clip.MP4''] \<in> set deep"
    unfolding deep using pt(1) demo_stat(4)
    by (intro exI [of _ "[''clip.MP4'']"] exI [of _ 41943040]) simp
  have 4: "[''videos'', ''old'', ''b.mp4''] \<in> set deep"
    unfolding deep using pt(2) demo_stat(7)
    by (intro exI [of _ "[''old'', ''b.mp4'']"] exI [of _ 7]) simp
  have "\<exists>flat deep.
      getFilesFromDirectory sample_engine demo_fs [''videos''] False (Some ''*.mp4'') = Inr flat
    \<and> getFilesFromDirectory sample_engine demo_fs [''videos''] True (Some ''*.mp4'') = Inr deep
    \<and> [''videos'', ''clip.MP4''] \<in> set flat
    \<and> [''videos'', ''old'', ''b.mp4''] \<notin> set flat
    \<and> [''videos'', ''clip.MP4''] \<in> set deep
    \<and> [''videos'', ''old'', ''b.mp4''] \<in> set deep"
    using fd [THEN conjunct1] fd [THEN conjunct2] 1 2 3 4
    by (intro exI [of _ flat] exI [of _ deep] conjI)
  with demo_fs_wf demo_stat(1) show ?thesis by (intro conjI)
qed

text \<open>
  Claim C10. \<open>uploadFile\<close> checks the candidate itself and returns a result in every case. For
  a path that does not exist the result has \<open>success = false\<close>, \<open>fileSize = 0\<close> and the message
  \<open>File not found:\<close> path. For a file of more than 41,943,040 bytes it has \<open>success = false\<close>
  and a message holding the formatted size and \<open>40MB limit\<close>. In both cases no request is
  sent: a request is sent exactly when the file exists and is within the limit.
\<close>

theorem upload_prevalidation:
  "(\<not> existsSync fs p \<longrightarrow>
      uploadFile fmt fs gw p rp st =
        (\<lparr>success = False, fileId = None, fileName = basename p, fileSize = 0,
          message = ''File not found: '' @ path_string p\<rparr>,
         st\<lparr>uploadFile_calls := uploadFile_calls st @ [p]\<rparr>))
 \<and> (\<forall>stats. statSync fs p = Some stats \<and> stat_size stats > 41943040 \<longrightarrow>
      (\<exists>nm. uploadFile fmt fs gw p rp st =
        (\<lparr>success = False, fileId = None, fileName = nm, fileSize = stat_size stats,
          message = ''File '' @ nm @ '' ('' @ fmt (stat_size stats)
            @ '') exceeds Iagon's 40MB limit. Consider compressing the video or splitting it into smaller segments.''\<rparr>,
         st\<lparr>uploadFile_calls := uploadFile_calls st @ [p]\<rparr>)))
 \<and> ((sent (snd (uploadFile fmt fs gw p rp st)) \<noteq> sent st)
     \<longleftrightarrow> (\<exists>stats. statSync fs p = Some stats \<and> stat_size stats \<le> 41943040))"
  by (auto simp: uploadFile_def existsSync_def Let_def FILE_SIZE_LIMIT_value split: option.splits sum.splits)

text \<open>The missing path \<open>/missing.mp4\<close> and the oversize file \<open>/videos/big.mp4\<close>.\<close>

theorem upload_prevalidation_witness:
  "\<not> existsSync demo_fs [''missing.mp4'']
 \<and> uploadFile demo_fmt demo_fs (demo_gateway None) [''missing.mp4''] None no_effects =
        (\<lparr>success = False, fileId = None, fileName = ''missing.mp4'', fileSize = 0,
          message = ''File not found: /missing.mp4''\<rparr>,
         \<lparr>sent = [], uploadFile_calls = [[''missing.mp4'']]\<rparr>)
 \<and> success (fst (uploadFile demo_fmt demo_fs (demo_gateway None) [''videos'', ''big.mp4''] None no_effects)) = False
 \<and> sent (snd (uploadFile demo_fmt demo_fs (demo_gateway None) [''videos'', ''big.mp4''] None no_effects)) = []"
proof -
  have m: "\<not> existsSync demo_fs [''missing.mp4'']"
    by (simp add: existsSync_def demo_stat)
  note t1 = upload_prevalidation [where fs = demo_fs and p = "[''missing.mp4'']" and fmt = demo_fmt
      and gw = "demo_gateway None" and rp = None and st = no_effects]
  note t2 = upload_prevalidation [where fs = demo_fs and p = "[''videos'', ''big.mp4'']" and fmt = demo_fmt
      and gw = "demo_gateway None" and rp = None and st = no_effects]
  have 1: "uploadFile demo_fmt demo_fs (demo_gateway None) [''missing.mp4''] None no_effects =
        (\<lparr>success = False, fileId = None, fileName = ''missing.mp4'', fileSize = 0,
          message = ''File not found: /missing.mp4''\<rparr>,
         \<lparr>sent = [], uploadFile_calls = [[''missing.mp4'']]\<rparr>)"
    using t1 m by (simp add: basename_def path_string_def no_effects_def)
  from t2 have "\<exists>nm. uploadFile demo_fmt demo_fs (demo_gateway None) [''videos'', ''big.mp4''] None no_effects =
        (\<lparr>success = False, fileId = None, fileName = nm, fileSize = stat_size (File 41943041),
          message = ''File '' @ nm @ '' ('' @ demo_fmt (stat_size (File 41943041))
            @ '') exceeds Iagon's 40MB limit. Consider compressing the video or splitting it into smaller segments.''\<rparr>,
         no_effects\<lparr>uploadFile_calls := uploadFile_calls no_effects @ [[''videos'', ''big.mp4'']]\<rparr>)"
    by (simp add: demo_stat)
  then have 2: "success (fst (uploadFile demo_fmt demo_fs (demo_gateway None) [''videos'', ''big.mp4''] None no_effects)) = False
     \<and> sent (snd (uploadFile demo_fmt demo_fs (demo_gateway None) [''videos'', ''big.mp4''] None no_effects)) = []"
    by (auto simp: no_effects_def)
  from m 1 2 show ?thesis by blast
qed

end
